theory Spec2Isabelle
  imports Complex_Main "HOL-Library.Multiset"
begin

section \<open>The BTL calculator of SmashMoves (class BTLCalculator)\<close>

text \<open>
  The embedding follows the class \<open>BTLCalculator\<close> (the file documented as
  \<open>src/web/btl-calculator.js\<close>) method by method, and the method
  \<open>groupGlobalRankingsByTier\<close> of \<open>src/web/tier-list.js\<close>.

  Conventions of the model.
  \<^item> JavaScript numbers are exact reals: rounding of IEEE doubles, \<open>NaN\<close> and the
    infinities are outside the model. Comparison counts (\<open>total\<close>, only ever changed
    by \<open>++\<close>) are natural numbers. Where exact arithmetic and the doubles of the program
    are known to differ (strict growth of the confidence, \<open>scoreB = 1 - scoreA\<close>, the edge
    of the band \<open>|scoreA - scoreB| \<le> 0.1\<close>), the theorems state the form that the program
    computes, and the text says so.
  \<^item> A move object is a record of its \<open>id\<close> and two descriptive fields; a choice holds the
    ids of \<open>choice.move1\<close> and \<open>choice.move2\<close>.
  \<^item> The object \<open>moveData\<close> is an association list in insertion order, which is the order
    of \<open>Object.keys\<close> and \<open>Object.values\<close> for keys that are not array indices.
    \<open>createMoveDataMap\<close> and \<open>calculateBTLScores\<close> are given twice: first for ids that are
    ordinary keys, then (suffix \<open>_proto\<close>) with the lookup \<open>moveData[id]\<close> going through the
    prototype chain, where an id such as \<open>constructor\<close> finds an inherited property and the
    method raises a \<open>TypeError\<close>. The two agree on events whose ids are ordinary keys
    (lemma \<open>calculateBTLScores_proto_ordinary\<close>).
  \<^item> \<open>Array.prototype.sort\<close> is a stable sort; it is modelled by a stable insertion sort
    over the comparator, and it sorts the array it is called on in place.
\<close>

subsection \<open>Data\<close>

record move =
  move_id :: string
  name :: string
  characterDisplayName :: string

record choice =
  move1_id :: string
  move2_id :: string
  userChoice :: int
  moveType :: string

record move_data =
  move :: move
  wins :: real
  total :: nat
  opponents :: "string set"

type_synonym moveData = "(string \<times> move_data) list"

record standing = move +
  btlScore :: real
  userWins :: real
  userTotal :: nat
  winRate :: real
  confidence :: real

datatype tier = S | A | B | C | D | F

subsection \<open>calculateConfidence\<close>

text \<open>
  \<open>Math.exp\<close> and the division are exact here. In the doubles of the program \<open>1 + e^x\<close> is
  exactly 1 once \<open>x\<close> is below about \<open>-37\<close>, so the computed confidence is exactly 1.0 from
  about 84 comparisons on: it grows with the count, but not strictly.
\<close>

definition calculateConfidence :: "real \<Rightarrow> real" where
  "calculateConfidence totalComparisons =
     (if totalComparisons = 0 then 0
      else let k = 0.5; x0 = 10
           in 1 / (1 + exp (- k * (totalComparisons - x0))))"

subsection \<open>createMoveDataMap\<close>

text \<open>\<open>new Map(moves.map(move => [move.id, move]))\<close>: a later move with the same id
  replaces an earlier one.\<close>

definition moveMap :: "move list \<Rightarrow> string \<Rightarrow> move option" where
  "moveMap moves = map_of (rev (map (\<lambda>m. (move_id m, m)) moves))"

definition newEntry :: "move \<Rightarrow> move_data" where
  "newEntry m = \<lparr>move = m, wins = 0, total = 0, opponents = {}\<rparr>"

text \<open>\<open>if (moveMap.has(id) && !moveData[id]) moveData[id] = {...}\<close>: a new key goes to the
  end of the object.\<close>

definition addMove :: "move list \<Rightarrow> string \<Rightarrow> moveData \<Rightarrow> moveData" where
  "addMove moves i md =
     (case moveMap moves i of
        None \<Rightarrow> md
      | Some m \<Rightarrow> (if map_of md i = None then md @ [(i, newEntry m)] else md))"

definition initChoice :: "move list \<Rightarrow> choice \<Rightarrow> moveData \<Rightarrow> moveData" where
  "initChoice moves c md = addMove moves (move2_id c) (addMove moves (move1_id c) md)"

text \<open>An in-place change of the entry stored under a key.\<close>

definition modify :: "string \<Rightarrow> (move_data \<Rightarrow> move_data) \<Rightarrow> moveData \<Rightarrow> moveData" where
  "modify i f md = map (\<lambda>(k, d). if k = i then (k, f d) else (k, d)) md"

definition incTotal :: "move_data \<Rightarrow> move_data" where
  "incTotal d = d\<lparr>total := Suc (total d)\<rparr>"

definition addOpponent :: "string \<Rightarrow> move_data \<Rightarrow> move_data" where
  "addOpponent j d = d\<lparr>opponents := insert j (opponents d)\<rparr>"

definition addWins :: "real \<Rightarrow> move_data \<Rightarrow> move_data" where
  "addWins w d = d\<lparr>wins := wins d + w\<rparr>"

definition recordResult :: "choice \<Rightarrow> moveData \<Rightarrow> moveData" where
  "recordResult c md =
     (if userChoice c = 1 then modify (move1_id c) (addWins 1) md
      else if userChoice c = 2 then modify (move2_id c) (addWins 1) md
      else modify (move2_id c) (addWins 0.5) (modify (move1_id c) (addWins 0.5) md))"

text \<open>
  One round of the second loop, for ids that are ordinary keys: \<open>moveData[id]\<close> is then truthy
  exactly when \<open>id\<close> is a key of the map. The same round with inherited properties is
  \<open>processChoice_proto\<close> below.
\<close>

definition processChoice :: "choice \<Rightarrow> moveData \<Rightarrow> moveData" where
  "processChoice c md =
     (if map_of md (move1_id c) \<noteq> None \<and> map_of md (move2_id c) \<noteq> None
      then recordResult c
             (modify (move2_id c) (addOpponent (move1_id c))
               (modify (move1_id c) (addOpponent (move2_id c))
                 (modify (move2_id c) incTotal
                   (modify (move1_id c) incTotal md))))
      else md)"

definition createMoveDataMap :: "move list \<Rightarrow> choice list \<Rightarrow> moveData" where
  "createMoveDataMap moves choices =
     fold processChoice choices (fold (initChoice moves) choices [])"

subsection \<open>calculateBTLIterative\<close>

definition seedScore :: "move_data \<Rightarrow> real" where
  "seedScore d =
     (if total d > 0
      then (let winRate = wins d / real (total d);
                confidence = calculateConfidence (real (total d))
            in winRate * (0.5 + 0.5 * confidence))
      else 0.5)"

text \<open>\<open>Math.max(...values)\<close> and \<open>Math.min(...values)\<close> on a non-empty array.\<close>

fun maxOf :: "real \<Rightarrow> real list \<Rightarrow> real" where
  "maxOf x [] = x"
| "maxOf x (y # ys) = maxOf (max x y) ys"

fun minOf :: "real \<Rightarrow> real list \<Rightarrow> real" where
  "minOf x [] = x"
| "minOf x (y # ys) = minOf (min x y) ys"

definition calculateBTLIterative :: "moveData \<Rightarrow> (string \<times> real) list" where
  "calculateBTLIterative md =
     (case map (\<lambda>(i, d). (i, seedScore d)) md of
        [] \<Rightarrow> []
      | s # ss \<Rightarrow>
          (let scores = s # ss;
               maxScore = maxOf (snd s) (map snd ss);
               minScore = minOf (snd s) (map snd ss);
               range = maxScore - minScore
           in if range > 0
              then map (\<lambda>(i, v). (i, (v - minScore) / range)) scores
              else scores))"

subsection \<open>calculateBTLScores\<close>

text \<open>\<open>btlScores[move.id] || 0.5\<close>: a missing score and the score 0 both give 0.5.\<close>

definition orDefault :: "real option \<Rightarrow> real" where
  "orDefault v = (case v of None \<Rightarrow> 0.5 | Some x \<Rightarrow> (if x = 0 then 0.5 else x))"

definition mkStanding :: "(string \<times> real) list \<Rightarrow> move_data \<Rightarrow> standing" where
  "mkStanding btlScores data =
     (let m = move data in
      \<lparr>move_id = move_id m, name = name m, characterDisplayName = characterDisplayName m,
       btlScore = orDefault (map_of btlScores (move_id m)),
       userWins = wins data,
       userTotal = total data,
       winRate = (if total data > 0 then wins data / real (total data) else 0),
       confidence = calculateConfidence (real (total data))\<rparr>)"

definition calculateBTLScores :: "move list \<Rightarrow> choice list \<Rightarrow> string \<Rightarrow> standing list" where
  "calculateBTLScores moves userChoices mt =
     (let typeChoices = filter (\<lambda>c. moveType c = mt) userChoices
      in if length typeChoices = 0 then []
         else (let moveData = createMoveDataMap moves typeChoices;
                   btlScores = calculateBTLIterative moveData
               in map (\<lambda>(i, data). mkStanding btlScores data) moveData))"

subsection \<open>createMoveDataMap and calculateBTLScores with inherited properties\<close>

text \<open>
  \<open>const moveData = {}\<close> inherits from \<open>Object.prototype\<close>: for an id that names one of its
  properties, \<open>moveData[id]\<close> is a function (or \<open>Object.prototype\<close> itself for \<open>__proto__\<close>),
  which is truthy and is not a tally entry.
\<close>

datatype error = TypeError

definition protoKeys :: "string set" where
  "protoKeys =
     {''constructor'', ''__proto__'', ''hasOwnProperty'', ''isPrototypeOf'',
      ''propertyIsEnumerable'', ''toLocaleString'', ''toString'', ''valueOf'',
      ''__defineGetter__'', ''__defineSetter__'', ''__lookupGetter__'', ''__lookupSetter__''}"

datatype property = Own move_data | Inherited

definition getProperty :: "moveData \<Rightarrow> string \<Rightarrow> property option" where
  "getProperty md i =
     (case map_of md i of
        Some d \<Rightarrow> Some (Own d)
      | None \<Rightarrow> (if i \<in> protoKeys then Some Inherited else None))"

text \<open>First loop: \<open>!moveData[id]\<close> is false for an inherited property, so no entry is made for
  such an id even when it is the id of a supplied move.\<close>

definition addMove_proto :: "move list \<Rightarrow> string \<Rightarrow> moveData \<Rightarrow> moveData" where
  "addMove_proto moves i md =
     (case moveMap moves i of
        None \<Rightarrow> md
      | Some m \<Rightarrow> (if getProperty md i = None then md @ [(i, newEntry m)] else md))"

definition initChoice_proto :: "move list \<Rightarrow> choice \<Rightarrow> moveData \<Rightarrow> moveData" where
  "initChoice_proto moves c md =
     addMove_proto moves (move2_id c) (addMove_proto moves (move1_id c) md)"

text \<open>
  Second loop: the guard \<open>moveData[move1Id] && moveData[move2Id]\<close> passes on inherited
  properties too. \<open>.total++\<close> on such a value is silent (it sets \<open>total\<close> to \<open>NaN\<close> on the
  inherited object); its \<open>.opponents\<close> is \<open>undefined\<close>, and \<open>.opponents.add(...)\<close> raises a
  \<open>TypeError\<close>, which ends the method.
\<close>

definition processChoice_proto :: "choice \<Rightarrow> moveData \<Rightarrow> error + moveData" where
  "processChoice_proto c md =
     (case (getProperty md (move1_id c), getProperty md (move2_id c)) of
        (Some p1, Some p2) \<Rightarrow>
          (if p1 = Inherited \<or> p2 = Inherited then Inl TypeError
           else Inr (recordResult c
                  (modify (move2_id c) (addOpponent (move1_id c))
                    (modify (move1_id c) (addOpponent (move2_id c))
                      (modify (move2_id c) incTotal
                        (modify (move1_id c) incTotal md))))))
      | _ \<Rightarrow> Inr md)"

definition createMoveDataMap_proto :: "move list \<Rightarrow> choice list \<Rightarrow> error + moveData" where
  "createMoveDataMap_proto moves choices =
     fold (\<lambda>c r. case r of Inl e \<Rightarrow> Inl e | Inr md \<Rightarrow> processChoice_proto c md)
       choices (Inr (fold (initChoice_proto moves) choices []))"

definition calculateBTLScores_proto ::
  "move list \<Rightarrow> choice list \<Rightarrow> string \<Rightarrow> error + standing list" where
  "calculateBTLScores_proto moves userChoices mt =
     (let typeChoices = filter (\<lambda>c. moveType c = mt) userChoices
      in if length typeChoices = 0 then Inr []
         else (case createMoveDataMap_proto moves typeChoices of
                 Inl e \<Rightarrow> Inl e
               | Inr moveData \<Rightarrow>
                   (let btlScores = calculateBTLIterative moveData
                    in Inr (map (\<lambda>(i, data). mkStanding btlScores data) moveData))))"

subsection \<open>groupMovesByTier\<close>

text \<open>A stable sort by a comparator: \<open>a\<close> stays before \<open>b\<close> when \<open>cmp a b \<le> 0\<close>.\<close>

fun insertBy :: "('a \<Rightarrow> 'a \<Rightarrow> real) \<Rightarrow> 'a \<Rightarrow> 'a list \<Rightarrow> 'a list" where
  "insertBy cmp x [] = [x]"
| "insertBy cmp x (y # ys) = (if cmp x y \<le> 0 then x # y # ys else y # insertBy cmp x ys)"

definition sortBy :: "('a \<Rightarrow> 'a \<Rightarrow> real) \<Rightarrow> 'a list \<Rightarrow> 'a list" where
  "sortBy cmp xs = foldr (insertBy cmp) xs []"

definition byScoreDesc :: "standing \<Rightarrow> standing \<Rightarrow> real" where
  "byScoreDesc a b = btlScore b - btlScore a"

definition tierOfIndex :: "nat \<Rightarrow> nat \<Rightarrow> tier" where
  "tierOfIndex index totalMoves =
     (let percentile = (real index / real totalMoves) * 100
      in if percentile < 10 then S
         else if percentile < 25 then A
         else if percentile < 50 then B
         else if percentile < 75 then C
         else if percentile < 90 then D
         else F)"

definition push :: "tier \<Rightarrow> 'a \<Rightarrow> (tier \<Rightarrow> 'a list) \<Rightarrow> (tier \<Rightarrow> 'a list)" where
  "push t x tiers = tiers(t := tiers t @ [x])"

text \<open>The result is the pair of the caller's array after the call (sorted in place) and
  the tiers object.\<close>

definition groupMovesByTier :: "standing list \<Rightarrow> standing list \<times> (tier \<Rightarrow> standing list)" where
  "groupMovesByTier movesWithScores =
     (let sortedMoves = sortBy byScoreDesc movesWithScores;
          totalMoves = length sortedMoves
      in (sortedMoves,
          fold (\<lambda>(index, m). push (tierOfIndex index totalMoves) m)
               (enumerate 0 sortedMoves) (\<lambda>t. [])))"

subsection \<open>calculateBTLPrediction\<close>

record prediction =
  move1Score :: real
  move2Score :: real
  predictedWinner :: nat
  pconfidence :: real

definition predWinRate :: "move_data \<Rightarrow> real" where
  "predWinRate d = (if total d > 0 then wins d / real (total d) else 0.5)"

definition calculateBTLPrediction :: "move \<Rightarrow> move \<Rightarrow> moveData \<Rightarrow> prediction" where
  "calculateBTLPrediction m1 m2 md =
     (case (map_of md (move_id m1), map_of md (move_id m2)) of
        (Some move1Data, Some move2Data) \<Rightarrow>
          (let move1WinRate = predWinRate move1Data;
               move2WinRate = predWinRate move2Data;
               totalRate = move1WinRate + move2WinRate;
               s1 = (if totalRate > 0 then move1WinRate / totalRate else 0.5);
               s2 = (if totalRate > 0 then move2WinRate / totalRate else 0.5);
               totalComparisons = total move1Data + total move2Data
           in \<lparr>move1Score = s1, move2Score = s2,
               predictedWinner = (if s1 > s2 + 0.1 then 1 else if s2 > s1 + 0.1 then 2 else 0),
               pconfidence = calculateConfidence (real totalComparisons)\<rparr>)
      | _ \<Rightarrow> \<lparr>move1Score = 0.5, move2Score = 0.5, predictedWinner = 0, pconfidence = 0\<rparr>)"

subsection \<open>groupGlobalRankingsByTier (tier-list.js)\<close>

text \<open>
  The comparator of the sort: score descending, then \<open>localeCompare\<close> on the character
  name. \<open>localeCompare\<close> depends on the locale of the browser and is a parameter. On numbers
  \<open>x || 0\<close> is \<open>x\<close>.
\<close>

definition byScoreThenName ::
  "(string \<Rightarrow> string \<Rightarrow> real) \<Rightarrow> standing \<Rightarrow> standing \<Rightarrow> real" where
  "byScoreThenName localeCompare a b =
     (let scoreDiff = btlScore b - btlScore a
      in if scoreDiff \<noteq> 0 then scoreDiff
         else localeCompare (characterDisplayName a) (characterDisplayName b))"

text \<open>\<open>scoreGroups\<close>: an object from scores to arrays of moves.\<close>

definition addToGroup ::
  "standing \<Rightarrow> (real \<rightharpoonup> standing list) \<Rightarrow> (real \<rightharpoonup> standing list)" where
  "addToGroup m scoreGroups =
     (let score = btlScore m
      in case scoreGroups score of
           None \<Rightarrow> scoreGroups(score \<mapsto> [m])
         | Some ms \<Rightarrow> scoreGroups(score \<mapsto> ms @ [m]))"

text \<open>\<open>[...new Set(xs)]\<close>: the distinct elements in order of first occurrence.\<close>

definition uniq :: "'a list \<Rightarrow> 'a list" where
  "uniq xs = fold (\<lambda>x acc. if x \<in> set acc then acc else acc @ [x]) xs []"

definition tierNames :: "tier list" where
  "tierNames = [S, A, B, C, D, F]"

text \<open>One round of the loop over \<open>uniqueScores\<close>; the state is \<open>currentTierIndex\<close> and
  \<open>tieredMoves\<close>. A score without a group would make \<open>movesWithScore.length\<close> raise a
  \<open>TypeError\<close>: the result \<open>None\<close>.\<close>

definition assignScore ::
  "(real \<rightharpoonup> standing list) \<Rightarrow> real \<Rightarrow> (nat \<times> (tier \<Rightarrow> standing list)) option
     \<Rightarrow> (nat \<times> (tier \<Rightarrow> standing list)) option" where
  "assignScore scoreGroups score st =
     (case st of
        None \<Rightarrow> None
      | Some (currentTierIndex, tieredMoves) \<Rightarrow>
          (case scoreGroups score of
             None \<Rightarrow> None
           | Some movesWithScore \<Rightarrow>
               (if currentTierIndex < length tierNames
                then (let currentTier = tierNames ! currentTierIndex
                      in Some (currentTierIndex + 1,
                               tieredMoves(currentTier := tieredMoves currentTier @ movesWithScore)))
                else Some (currentTierIndex,
                           tieredMoves(F := tieredMoves F @ movesWithScore)))))"

definition groupGlobalRankingsByTier ::
  "(string \<Rightarrow> string \<Rightarrow> real) \<Rightarrow> standing list \<Rightarrow> (tier \<Rightarrow> standing list) option" where
  "groupGlobalRankingsByTier localeCompare globalRankings =
     (let sortedRankings = sortBy (byScoreThenName localeCompare) globalRankings;
          scoreGroups = fold addToGroup sortedRankings Map.empty;
          uniqueScores = sortBy (\<lambda>a b. b - a) (uniq (map btlScore sortedRankings))
      in map_option snd (fold (assignScore scoreGroups) uniqueScores (Some (0, \<lambda>t. []))))"

subsection \<open>The specification's reference for the scores\<close>

text \<open>
  The two-step reference as the specification words it: the seed of an item with
  \<open>total > 0\<close> is \<open>winRate * (0.5 + 0.5 * confidence(total))\<close> with the logistic
  confidence, an item with \<open>total = 0\<close> has 0.5; the maximum and minimum are taken over the
  items with \<open>total > 0\<close> only, and only those items are rescaled.
\<close>

definition specConfidence :: "real \<Rightarrow> real" where
  "specConfidence n = 1 / (1 + exp (- 0.5 * (n - 10)))"

definition specSeed :: "move_data \<Rightarrow> real" where
  "specSeed d =
     (if total d > 0
      then (wins d / real (total d)) * (0.5 + 0.5 * specConfidence (real (total d)))
      else 0.5)"

definition specScores :: "moveData \<Rightarrow> (string \<times> real) list" where
  "specScores md =
     (case map (\<lambda>(i, d). specSeed d) (filter (\<lambda>(i, d). total d > 0) md) of
        [] \<Rightarrow> map (\<lambda>(i, d). (i, specSeed d)) md
      | s # ss \<Rightarrow>
          (let mx = maxOf s ss; mn = minOf s ss
           in map (\<lambda>(i, d). (i, if total d > 0 \<and> mx > mn
                                  then (specSeed d - mn) / (mx - mn) else specSeed d)) md))"

subsection \<open>Auxiliary notions for the proofs\<close>

text \<open>\<open>moveMap.has(id)\<close>, the ids that occur in a list of choices, and the closed form of
  the tallies that the second loop of \<open>createMoveDataMap\<close> accumulates.\<close>

definition known :: "move list \<Rightarrow> string \<Rightarrow> bool" where
  "known moves i = (i \<in> move_id ` set moves)"

definition participants :: "choice list \<Rightarrow> string set" where
  "participants cs = move1_id ` set cs \<union> move2_id ` set cs"

definition counted :: "move list \<Rightarrow> choice \<Rightarrow> bool" where
  "counted moves c = (known moves (move1_id c) \<and> known moves (move2_id c))"

definition totalGain :: "choice \<Rightarrow> string \<Rightarrow> nat" where
  "totalGain c i = (if move1_id c = i then 1 else 0) + (if move2_id c = i then 1 else 0)"

definition winGain :: "choice \<Rightarrow> string \<Rightarrow> real" where
  "winGain c i =
     (if userChoice c = 1 then (if move1_id c = i then 1 else 0)
      else if userChoice c = 2 then (if move2_id c = i then 1 else 0)
      else (if move1_id c = i then 0.5 else 0) + (if move2_id c = i then 0.5 else 0))"

definition tallyTotal :: "move list \<Rightarrow> choice list \<Rightarrow> string \<Rightarrow> nat" where
  "tallyTotal moves cs i = (\<Sum>c\<leftarrow>filter (counted moves) cs. totalGain c i)"

definition tallyWins :: "move list \<Rightarrow> choice list \<Rightarrow> string \<Rightarrow> real" where
  "tallyWins moves cs i = (\<Sum>c\<leftarrow>filter (counted moves) cs. winGain c i)"

definition present :: "moveData \<Rightarrow> choice \<Rightarrow> bool" where
  "present md c = (map_of md (move1_id c) \<noteq> None \<and> map_of md (move2_id c) \<noteq> None)"

definition rescaled :: "real set \<Rightarrow> real \<Rightarrow> real" where
  "rescaled V v = (if Max V > Min V then (v - Min V) / (Max V - Min V) else v)"

definition tierAt :: "nat \<Rightarrow> tier" where
  "tierAt j = (if j < length tierNames then tierNames ! j else F)"

subsection \<open>Example data\<close>

definition exA :: move where
  "exA = \<lparr>move_id = ''a'', name = ''Jab 1'', characterDisplayName = ''Fox''\<rparr>"

definition exB :: move where
  "exB = \<lparr>move_id = ''b'', name = ''Jab 1'', characterDisplayName = ''Link''\<rparr>"

definition exC :: move where
  "exC = \<lparr>move_id = ''c'', name = ''Jab 1'', characterDisplayName = ''Mario''\<rparr>"

definition jab :: "string \<Rightarrow> string \<Rightarrow> int \<Rightarrow> choice" where
  "jab i j u = \<lparr>move1_id = i, move2_id = j, userChoice = u, moveType = ''jab''\<rparr>"

definition exStanding :: "string \<Rightarrow> real \<Rightarrow> standing" where
  "exStanding i s =
     \<lparr>move_id = i, name = ''Jab 1'', characterDisplayName = i, btlScore = s,
      userWins = 0, userTotal = 0, winRate = 0, confidence = 0\<rparr>"

definition exMoves :: "move list" where
  "exMoves = [exA, exB, exC]"

definition exChoices :: "choice list" where
  "exChoices = [jab ''a'' ''b'' 0, jab ''c'' ''u'' 1]"

section \<open>Properties\<close>

subsection \<open>Confidence\<close>

lemma logistic_pos: "0 < 1 / (1 + exp (x::real))"
  by (simp add: add_pos_pos)

lemma logistic_mono:
  "x < y \<Longrightarrow>
   1 / (1 + exp (- (1/2) * (x - 10))) < 1 / (1 + exp (- (1/2) * (y - 10::real)))"
proof -
  assume "x < y"
  then have "exp (- (1/2) * (y - 10)) < exp (- (1/2) * (x - 10))" by simp
  moreover have "0 < 1 + exp (- (1/2) * (y - 10))" by (simp add: add_pos_pos)
  ultimately show ?thesis by (simp add: frac_less2)
qed

text \<open>
  C3, as stated, fails at \<open>n = 0\<close>: the guard \<open>if (totalComparisons === 0) return 0\<close>
  answers 0 there, not the logistic value \<open>1 / (1 + e^5)\<close>.
\<close>

theorem calculateConfidence_zero_counterexample:
  "calculateConfidence 0 = 0 \<and> calculateConfidence 0 \<noteq> 1 / (1 + exp 5)"
proof -
  have "0 < 1 + exp (5::real)" by (simp add: add_pos_pos)
  then show ?thesis by (simp add: calculateConfidence_def)
qed

text \<open>
  C3 (amended): for every \<open>n\<close> other than 0, \<open>calculateConfidence n\<close> is the logistic
  \<open>1 / (1 + e^(-0.5 (n - 10)))\<close>; \<open>calculateConfidence 0\<close> is 0; the function is
  non-decreasing on \<open>n \<ge> 0\<close>, positive for \<open>n > 0\<close> and at most 1; and
  \<open>calculateConfidence 10\<close> is exactly 0.5. (The increase is strict in exact arithmetic
  only: the doubles of the program reach exactly 1.0 at about \<open>n = 84\<close>.)
\<close>

theorem calculateConfidence_logistic:
  "(n \<noteq> 0 \<longrightarrow> calculateConfidence n = 1 / (1 + exp (- 0.5 * (n - 10))))
   \<and> calculateConfidence 0 = 0
   \<and> (0 \<le> a \<and> a \<le> b \<longrightarrow> calculateConfidence a \<le> calculateConfidence b)
   \<and> (0 < b \<longrightarrow> 0 < calculateConfidence b)
   \<and> calculateConfidence b \<le> 1
   \<and> calculateConfidence 10 = 0.5"
proof -
  have mono: "calculateConfidence a \<le> calculateConfidence b" if "0 \<le> a" "a \<le> b"
  proof (cases "a = b")
    case True
    then show ?thesis by simp
  next
    case ne: False
    with that have lt: "a < b" by simp
    show ?thesis
    proof (cases "a = 0")
      case True
      with lt have "b \<noteq> 0" by simp
      then show ?thesis using True logistic_pos [of "- (1/2) * (b - 10)"]
        by (simp add: calculateConfidence_def)
    next
      case False
      with that have "b \<noteq> 0" by simp
      then show ?thesis using False logistic_mono [OF lt]
        by (simp add: calculateConfidence_def)
    qed
  qed
  have pos: "0 < calculateConfidence b" if "0 < b"
    using that logistic_pos [of "- (1/2) * (b - 10)"] by (simp add: calculateConfidence_def)
  have le1: "calculateConfidence b \<le> 1"
  proof (cases "b = 0")
    case True
    then show ?thesis by (simp add: calculateConfidence_def)
  next
    case False
    have "1 \<le> 1 + exp (- (1/2) * (b - 10))" by simp
    then have "1 / (1 + exp (- (1/2) * (b - 10))) \<le> 1" by (simp add: add_pos_pos)
    with False show ?thesis by (simp add: calculateConfidence_def)
  qed
  show ?thesis using mono pos le1 by (simp add: calculateConfidence_def)
qed

theorem calculateConfidence_logistic_witness:
  "calculateConfidence 4 = 1 / (1 + exp 3) \<and> calculateConfidence 0 \<le> calculateConfidence 1
   \<and> 0 < calculateConfidence 1"
  using calculateConfidence_logistic [of 4 0 1] by simp

subsection \<open>The tally map built by createMoveDataMap\<close>

lemma moveMap_None: "moveMap moves i = None \<longleftrightarrow> \<not> known moves i"
  by (auto simp: moveMap_def known_def map_of_eq_None_iff image_iff)

lemma moveMap_Some: "moveMap moves i = Some m \<Longrightarrow> move_id m = i \<and> m \<in> set moves"
  by (auto simp: moveMap_def dest!: map_of_SomeD)

lemma map_of_addMove:
  "map_of (addMove moves i md) k =
     (case map_of md k of Some d \<Rightarrow> Some d
      | None \<Rightarrow> if k = i then map_option newEntry (moveMap moves i) else None)"
  by (auto simp: addMove_def map_add_def split: option.splits)

lemma keys_addMove:
  "distinct (map fst md) \<Longrightarrow> distinct (map fst (addMove moves i md))"
  by (auto simp: addMove_def map_of_eq_None_iff split: option.splits)

lemma map_of_initChoice:
  "map_of (initChoice moves c md) k =
     (case map_of md k of Some d \<Rightarrow> Some d
      | None \<Rightarrow> if k = move1_id c \<or> k = move2_id c then map_option newEntry (moveMap moves k) else None)"
  by (auto simp: initChoice_def map_of_addMove split: option.splits)

lemma map_of_init:
  "map_of (fold (initChoice moves) cs md) k =
     (case map_of md k of Some d \<Rightarrow> Some d
      | None \<Rightarrow> if k \<in> participants cs then map_option newEntry (moveMap moves k) else None)"
proof (induction cs arbitrary: md)
  case Nil
  then show ?case by (simp add: participants_def split: option.splits)
next
  case (Cons c cs)
  show ?case
    by (auto simp: Cons.IH map_of_initChoice participants_def split: option.splits)
qed

lemma distinct_init:
  "distinct (map fst md) \<Longrightarrow> distinct (map fst (fold (initChoice moves) cs md))"
  by (induction cs arbitrary: md) (auto simp: initChoice_def keys_addMove)

lemma map_of_modify:
  "map_of (modify i f md) k = (if k = i then map_option f (map_of md k) else map_of md k)"
  by (induction md) (auto simp: modify_def)

lemma keys_modify: "map fst (modify i f md) = map fst md"
  by (induction md) (auto simp: modify_def)

lemma keys_recordResult: "map fst (recordResult c md) = map fst md"
  by (simp add: recordResult_def keys_modify)

lemma keys_processChoice: "map fst (processChoice c md) = map fst md"
  by (simp add: processChoice_def keys_recordResult keys_modify)

lemma keys_process: "map fst (fold processChoice cs md) = map fst md"
  by (induction cs arbitrary: md) (auto simp: keys_processChoice)

lemma dom_processChoice: "map_of (processChoice c md) k = None \<longleftrightarrow> map_of md k = None"
  by (simp add: map_of_eq_None_iff keys_processChoice flip: set_map)

lemma total_processChoice:
  "map_option total (map_of (processChoice c md) k) =
   map_option (\<lambda>d. total d + (if present md c then totalGain c k else 0)) (map_of md k)"
  by (cases "map_of md k")
     (auto simp: processChoice_def recordResult_def map_of_modify totalGain_def present_def
        incTotal_def addOpponent_def addWins_def)

lemma wins_processChoice:
  "map_option wins (map_of (processChoice c md) k) =
   map_option (\<lambda>d. wins d + (if present md c then winGain c k else 0)) (map_of md k)"
  by (cases "map_of md k")
     (auto simp: processChoice_def recordResult_def map_of_modify winGain_def present_def
        incTotal_def addOpponent_def addWins_def)

lemma move_processChoice:
  "map_option move (map_of (processChoice c md) k) = map_option move (map_of md k)"
  by (cases "map_of md k")
     (auto simp: processChoice_def recordResult_def map_of_modify
        incTotal_def addOpponent_def addWins_def)

lemma present_processChoice: "present (processChoice c md) = present md"
  by (rule ext) (simp add: present_def dom_processChoice)

lemma total_process:
  "map_option total (map_of (fold processChoice cs md) k) =
   map_option (\<lambda>t. t + (\<Sum>c\<leftarrow>filter (present md) cs. totalGain c k))
     (map_option total (map_of md k))"
proof (induction cs arbitrary: md)
  case Nil
  then show ?case by (simp add: option.map_comp comp_def option.map_ident)
next
  case (Cons c cs)
  show ?case
    by (simp add: Cons.IH present_processChoice total_processChoice option.map_comp comp_def
        add.assoc)
qed

lemma wins_process:
  "map_option wins (map_of (fold processChoice cs md) k) =
   map_option (\<lambda>w. w + (\<Sum>c\<leftarrow>filter (present md) cs. winGain c k))
     (map_option wins (map_of md k))"
proof (induction cs arbitrary: md)
  case Nil
  then show ?case by (simp add: option.map_comp comp_def option.map_ident)
next
  case (Cons c cs)
  show ?case
    by (simp add: Cons.IH present_processChoice wins_processChoice option.map_comp comp_def
        add.assoc)
qed

lemma move_process:
  "map_option move (map_of (fold processChoice cs md) k) = map_option move (map_of md k)"
  by (induction cs arbitrary: md) (simp_all add: move_processChoice)

lemma map_of_init_Nil:
  "map_of (fold (initChoice moves) cs []) k =
     (if k \<in> participants cs then map_option newEntry (moveMap moves k) else None)"
  by (simp add: map_of_init)

lemma present_init:
  "c \<in> set cs \<Longrightarrow> present (fold (initChoice moves) cs []) c = counted moves c"
  by (auto simp: present_def map_of_init_Nil counted_def participants_def moveMap_None)

lemma filter_present_init:
  "filter (present (fold (initChoice moves) cs [])) cs = filter (counted moves) cs"
  by (rule filter_cong) (simp_all add: present_init)

lemma cmd_total:
  "map_option total (map_of (createMoveDataMap moves cs) k) =
     (if k \<in> participants cs \<and> known moves k then Some (tallyTotal moves cs k) else None)"
  by (auto simp: createMoveDataMap_def total_process filter_present_init map_of_init_Nil
      tallyTotal_def newEntry_def option.map_comp comp_def moveMap_None
      simp flip: not_None_eq)

lemma cmd_wins:
  "map_option wins (map_of (createMoveDataMap moves cs) k) =
     (if k \<in> participants cs \<and> known moves k then Some (tallyWins moves cs k) else None)"
  by (auto simp: createMoveDataMap_def wins_process filter_present_init map_of_init_Nil
      tallyWins_def newEntry_def option.map_comp comp_def moveMap_None
      simp flip: not_None_eq)

lemma cmd_move:
  "map_option move (map_of (createMoveDataMap moves cs) k) =
     (if k \<in> participants cs then moveMap moves k else None)"
  by (auto simp: createMoveDataMap_def move_process map_of_init_Nil
      newEntry_def option.map_comp comp_def option.map_ident)

lemma cmd_distinct: "distinct (map fst (createMoveDataMap moves cs))"
  by (simp add: createMoveDataMap_def keys_process distinct_init)

lemma cmd_Some:
  assumes "map_of (createMoveDataMap moves cs) k = Some d"
  shows "k \<in> participants cs" "known moves k" "total d = tallyTotal moves cs k"
    "wins d = tallyWins moves cs k" "moveMap moves k = Some (move d)"
  using assms cmd_total [of moves cs k] cmd_wins [of moves cs k] cmd_move [of moves cs k]
  by (auto split: if_splits)

lemma cmd_dom:
  "map_of (createMoveDataMap moves cs) k \<noteq> None \<longleftrightarrow> k \<in> participants cs \<and> known moves k"
  using cmd_total [of moves cs k] by (auto split: if_splits)

lemma cmd_keys:
  "set (map fst (createMoveDataMap moves cs)) = {k. k \<in> participants cs \<and> known moves k}"
  using cmd_dom [of moves cs] by (auto simp: map_of_eq_None_iff)


lemma winGain_bounds: "0 \<le> winGain c i \<and> winGain c i \<le> real (totalGain c i)"
  by (simp add: winGain_def totalGain_def)

lemma tallyWins_bounds:
  "0 \<le> tallyWins moves cs i \<and> tallyWins moves cs i \<le> real (tallyTotal moves cs i)"
proof -
  have "0 \<le> (\<Sum>c\<leftarrow>xs. winGain c i) \<and> (\<Sum>c\<leftarrow>xs. winGain c i) \<le> real (\<Sum>c\<leftarrow>xs. totalGain c i)"
    for xs
  proof (induction xs)
    case Nil
    then show ?case by simp
  next
    case (Cons c xs)
    then show ?case using winGain_bounds [of c i] by simp
  qed
  then show ?thesis by (simp add: tallyWins_def tallyTotal_def)
qed






lemma cmd_entry:
  assumes "(k, d) \<in> set (createMoveDataMap moves cs)"
  shows "k \<in> participants cs" "known moves k" "total d = tallyTotal moves cs k"
    "wins d = tallyWins moves cs k" "moveMap moves k = Some (move d)" "move_id (move d) = k"
proof -
  have "map_of (createMoveDataMap moves cs) k = Some d"
    using assms cmd_distinct by simp
  then show "k \<in> participants cs" "known moves k" "total d = tallyTotal moves cs k"
    "wins d = tallyWins moves cs k" "moveMap moves k = Some (move d)"
    by (rule cmd_Some)+
  then show "move_id (move d) = k" by (simp add: moveMap_Some)
qed

lemma cmd_exists:
  assumes "k \<in> participants cs" "known moves k"
  shows "\<exists>d. (k, d) \<in> set (createMoveDataMap moves cs) \<and> map_of (createMoveDataMap moves cs) k = Some d"
  using assms cmd_dom [of moves cs k] by (auto dest: map_of_SomeD)

lemma mkStanding_simps:
  "move_id (mkStanding sc d) = move_id (move d)"
  "userWins (mkStanding sc d) = wins d"
  "userTotal (mkStanding sc d) = total d"
  "winRate (mkStanding sc d) = (if total d > 0 then wins d / real (total d) else 0)"
  "confidence (mkStanding sc d) = calculateConfidence (real (total d))"
  "btlScore (mkStanding sc d) = orDefault (map_of sc (move_id (move d)))"
  by (simp_all add: mkStanding_def Let_def)

lemma scores_nonempty:
  "filter (\<lambda>c. moveType c = mt) cs \<noteq> [] \<Longrightarrow>
   calculateBTLScores moves cs mt =
     map (\<lambda>(i, d). mkStanding (calculateBTLIterative (createMoveDataMap moves (filter (\<lambda>c. moveType c = mt) cs))) d)
       (createMoveDataMap moves (filter (\<lambda>c. moveType c = mt) cs))"
  by (simp add: calculateBTLScores_def Let_def)

lemma scores_empty:
  "filter (\<lambda>c. moveType c = mt) cs = [] \<Longrightarrow> calculateBTLScores moves cs mt = []"
  by (simp add: calculateBTLScores_def Let_def)

lemma scores_ids:
  "map move_id (calculateBTLScores moves cs mt) =
     map fst (createMoveDataMap moves (filter (\<lambda>c. moveType c = mt) cs))"
proof (cases "filter (\<lambda>c. moveType c = mt) cs = []")
  case True
  then show ?thesis by (simp add: scores_empty createMoveDataMap_def)
next
  case False
  show ?thesis
    by (simp add: scores_nonempty [OF False] mkStanding_simps cmd_entry(6) case_prod_unfold
        cong: map_cong)
qed

lemma scores_mem:
  assumes "r \<in> set (calculateBTLScores moves cs mt)"
  shows "\<exists>d. (move_id r, d) \<in> set (createMoveDataMap moves (filter (\<lambda>c. moveType c = mt) cs))
           \<and> r = mkStanding (calculateBTLIterative (createMoveDataMap moves (filter (\<lambda>c. moveType c = mt) cs))) d"
proof (cases "filter (\<lambda>c. moveType c = mt) cs = []")
  case True
  with assms show ?thesis by (simp add: scores_empty)
next
  case False
  from assms obtain k d where kd: "(k, d) \<in> set (createMoveDataMap moves (filter (\<lambda>c. moveType c = mt) cs))"
    and r: "r = mkStanding (calculateBTLIterative (createMoveDataMap moves (filter (\<lambda>c. moveType c = mt) cs))) d"
    by (auto simp: scores_nonempty [OF False])
  from kd have "move_id (move d) = k" by (rule cmd_entry(6))
  with kd r show ?thesis by (auto simp: mkStanding_simps)
qed

lemma scores_of_entry:
  assumes "(k, d) \<in> set (createMoveDataMap moves (filter (\<lambda>c. moveType c = mt) cs))"
  shows "mkStanding (calculateBTLIterative (createMoveDataMap moves (filter (\<lambda>c. moveType c = mt) cs))) d
           \<in> set (calculateBTLScores moves cs mt)"
proof -
  from assms have "filter (\<lambda>c. moveType c = mt) cs \<noteq> []"
    by (auto simp: createMoveDataMap_def)
  from scores_nonempty [OF this] assms show ?thesis by force
qed


subsection \<open>Evaluation on the example data\<close>

lemmas cmd_eval = createMoveDataMap_def initChoice_def addMove_def moveMap_def
  newEntry_def processChoice_def modify_def recordResult_def incTotal_def addOpponent_def
  addWins_def

lemma cmd_ex_unknown_only: "createMoveDataMap [exA] [jab ''a'' ''u'' 1] =
   [(''a'', \<lparr>move = exA, wins = 0, total = 0, opponents = {}\<rparr>)]"
  by (simp add: cmd_eval exA_def jab_def)

lemma cmd_ex_tie_and_unknown: "createMoveDataMap [exA, exB, exC] [jab ''a'' ''b'' 0, jab ''c'' ''u'' 1] =
   [(''a'', \<lparr>move = exA, wins = 1/2, total = 1, opponents = {''b''}\<rparr>),
    (''b'', \<lparr>move = exB, wins = 1/2, total = 1, opponents = {''a''}\<rparr>),
    (''c'', \<lparr>move = exC, wins = 0, total = 0, opponents = {}\<rparr>)]"
  by (simp add: cmd_eval exA_def exB_def exC_def jab_def)

lemma jab_sel:
  "move1_id (jab i j u) = i" "move2_id (jab i j u) = j" "userChoice (jab i j u) = u"
  "moveType (jab i j u) = ''jab''"
  by (simp_all add: jab_def)

lemma scores_ex_unknown_only: "calculateBTLScores [exA] [jab ''a'' ''u'' 1] ''jab'' =
  [\<lparr>move_id = ''a'', name = ''Jab 1'', characterDisplayName = ''Fox'',
    btlScore = 1/2, userWins = 0, userTotal = 0, winRate = 0, confidence = 0\<rparr>]"
  by (simp add: calculateBTLScores_def jab_sel cmd_ex_unknown_only Let_def mkStanding_def calculateBTLIterative_def seedScore_def
     orDefault_def calculateConfidence_def) (simp add: exA_def)


subsection \<open>The scores of calculateBTLIterative\<close>

lemma maxOf_Max: "maxOf x xs = Max (set (x # xs))"
proof (induction xs arbitrary: x)
  case Nil
  then show ?case by simp
next
  case (Cons y ys)
  have "Max (set (max x y # ys)) = Max (set (x # y # ys))"
    by (cases "ys = []") (simp_all add: max.assoc)
  then show ?case by (simp add: Cons.IH)
qed

lemma minOf_Min: "minOf x xs = Min (set (x # xs))"
proof (induction xs arbitrary: x)
  case Nil
  then show ?case by simp
next
  case (Cons y ys)
  have "Min (set (min x y # ys)) = Min (set (x # y # ys))"
    by (cases "ys = []") (simp_all add: min.assoc)
  then show ?case by (simp add: Cons.IH)
qed

lemma iterative_char:
  "calculateBTLIterative md =
     map (\<lambda>(i, d). (i, rescaled (seedScore ` snd ` set md) (seedScore d))) md"
proof (cases md)
  case Nil
  then show ?thesis by (simp add: calculateBTLIterative_def)
next
  case (Cons p ps)
  have V: "set (seedScore (snd p) # map snd (map (\<lambda>(i, d). (i, seedScore d)) ps))
             = seedScore ` snd ` set md"
    by (simp add: Cons case_prod_unfold comp_def image_image)
  have mx: "maxOf (seedScore (snd p)) (map snd (map (\<lambda>(i, d). (i, seedScore d)) ps)) = Max (seedScore ` snd ` set md)"
    unfolding maxOf_Max V ..
  have mn: "minOf (seedScore (snd p)) (map snd (map (\<lambda>(i, d). (i, seedScore d)) ps)) = Min (seedScore ` snd ` set md)"
    unfolding minOf_Min V ..
  have "calculateBTLIterative md =
      (let scores = map (\<lambda>(i, d). (i, seedScore d)) md;
           maxScore = Max (seedScore ` snd ` set md); minScore = Min (seedScore ` snd ` set md);
           range = maxScore - minScore
       in if range > 0 then map (\<lambda>(i, v). (i, (v - minScore) / range)) scores else scores)"
    using mx mn by (simp add: calculateBTLIterative_def Cons case_prod_unfold Let_def)
  then show ?thesis
    by (auto simp: Let_def rescaled_def case_prod_unfold)
qed

lemma map_of_map_snd:
  "map_of (map (\<lambda>(i, d). (i, g d)) md) k = map_option g (map_of md k)"
  by (induction md) auto

lemma map_of_iterative:
  "map_of (calculateBTLIterative md) k =
     map_option (\<lambda>d. rescaled (seedScore ` snd ` set md) (seedScore d)) (map_of md k)"
  unfolding iterative_char by (rule map_of_map_snd)


lemma specSeed_eq: "specSeed d = seedScore d"
  by (simp add: specSeed_def seedScore_def specConfidence_def calculateConfidence_def)

lemma spec_agrees:
  assumes "\<forall>(i, d) \<in> set md. total d > 0"
  shows "calculateBTLIterative md = specScores md"
proof -
  from assms have f: "filter (\<lambda>(i, d). total d > 0) md = md"
    by (auto simp: filter_id_conv)
  show ?thesis
  proof (cases md)
    case Nil
    then show ?thesis by (simp add: calculateBTLIterative_def specScores_def)
  next
    case (Cons p ps)
    from assms Cons have "\<forall>(i, d) \<in> set md. total d > 0" by simp
    then have *: "map (\<lambda>(i, d). (i, if total d > 0 \<and> mx > mn
                                  then (specSeed d - mn) / (mx - mn) else specSeed d)) md
       = map (\<lambda>(i, d). (i, if mx > mn
                                  then (seedScore d - mn) / (mx - mn) else seedScore d)) md" for mx mn :: real
      by (auto simp: specSeed_eq)
    show ?thesis unfolding specScores_def f *
      by (simp add: calculateBTLIterative_def Cons specSeed_eq Let_def case_prod_unfold comp_def)
  qed
qed

lemma confidence_one_bounds: "0 < calculateConfidence 1 \<and> calculateConfidence 1 < 1"
proof -
  have "0 < exp (9/2 :: real)" by simp
  then show ?thesis by (simp add: calculateConfidence_def add_pos_pos)
qed

lemma ex_cmd: "createMoveDataMap exMoves exChoices =
   [(''a'', \<lparr>move = exA, wins = 1/2, total = 1, opponents = {''b''}\<rparr>),
    (''b'', \<lparr>move = exB, wins = 1/2, total = 1, opponents = {''a''}\<rparr>),
    (''c'', \<lparr>move = exC, wins = 0, total = 0, opponents = {}\<rparr>)]"
  by (simp add: exMoves_def exChoices_def cmd_ex_tie_and_unknown)

lemma ex_code: "map_of (calculateBTLIterative (createMoveDataMap exMoves exChoices)) ''c'' = Some 1"
  using confidence_one_bounds unfolding ex_cmd
  by (simp add: calculateBTLIterative_def seedScore_def Let_def)

lemma ex_spec: "map_of (specScores (createMoveDataMap exMoves exChoices)) ''c'' = Some (1/2)"
  unfolding ex_cmd
  by (simp add: specScores_def specSeed_def Let_def)


subsection \<open>Standings of calculateBTLScores\<close>

text \<open>
  C1, as stated, fails: with no event of the category the method returns the empty array
  (``No user data - return empty array to indicate no rankings available''), not one neutral
  standing per item.
\<close>

theorem no_events_counterexample:
  "calculateBTLScores [exA] [] ''jab'' = []"
  by (simp add: calculateBTLScores_def)

text \<open>
  C1 (amended): when the event log filtered to the category is empty, \<open>calculateBTLScores\<close>
  returns the empty list; in general it returns exactly one standing for each supplied item
  that takes part in at least one event of the category, and none for the other items; and
  every returned standing with total count 0 has win count 0, win rate 0 and confidence 0.
\<close>

theorem calculateBTLScores_standings:
  "(filter (\<lambda>c. moveType c = mt) userChoices = [] \<longrightarrow> calculateBTLScores moves userChoices mt = [])
   \<and> distinct (map move_id (calculateBTLScores moves userChoices mt))
   \<and> set (map move_id (calculateBTLScores moves userChoices mt)) =
       move_id ` set moves \<inter>
       (move1_id ` set (filter (\<lambda>c. moveType c = mt) userChoices)
        \<union> move2_id ` set (filter (\<lambda>c. moveType c = mt) userChoices))
   \<and> (\<forall>r \<in> set (calculateBTLScores moves userChoices mt).
        userTotal r = 0 \<longrightarrow> userWins r = 0 \<and> winRate r = 0 \<and> confidence r = 0)"
proof (intro conjI ballI impI)
  assume "filter (\<lambda>c. moveType c = mt) userChoices = []"
  then show "calculateBTLScores moves userChoices mt = []" by (rule scores_empty)
next
  show "distinct (map move_id (calculateBTLScores moves userChoices mt))"
    by (simp only: scores_ids cmd_distinct)
next
  show "set (map move_id (calculateBTLScores moves userChoices mt)) =
       move_id ` set moves \<inter>
       (move1_id ` set (filter (\<lambda>c. moveType c = mt) userChoices)
        \<union> move2_id ` set (filter (\<lambda>c. moveType c = mt) userChoices))"
    unfolding scores_ids cmd_keys by (auto simp: participants_def known_def)
next
  fix r assume r: "r \<in> set (calculateBTLScores moves userChoices mt)" and z: "userTotal r = 0"
  let ?tc = "filter (\<lambda>c. moveType c = mt) userChoices"
  from scores_mem [OF r] obtain d where d: "(move_id r, d) \<in> set (createMoveDataMap moves ?tc)"
    and rd: "r = mkStanding (calculateBTLIterative (createMoveDataMap moves ?tc)) d" by blast
  from z rd have t0: "total d = 0" by (simp add: mkStanding_simps)
  have "wins d = tallyWins moves ?tc (move_id r)" "total d = tallyTotal moves ?tc (move_id r)"
    using cmd_entry [OF d] by simp_all
  with t0 tallyWins_bounds [of moves ?tc "move_id r"] have "wins d = 0" by simp
  with t0 rd show "userWins r = 0" "winRate r = 0" "confidence r = 0"
    by (simp_all add: mkStanding_simps calculateConfidence_def)
qed


theorem calculateBTLScores_standings_witness:
  "calculateBTLScores [exA] [] ''jab'' = []
   \<and> map move_id (calculateBTLScores [exA] [jab ''a'' ''u'' 1] ''jab'') = [''a'']
   \<and> map userWins (calculateBTLScores [exA] [jab ''a'' ''u'' 1] ''jab'') = [0]
   \<and> map confidence (calculateBTLScores [exA] [jab ''a'' ''u'' 1] ''jab'') = [0]"
  using calculateBTLScores_standings [where moves = "[exA]" and userChoices = "[]" and mt = "''jab''"]
    calculateBTLScores_standings [where moves = "[exA]" and userChoices = "[jab ''a'' ''u'' 1]"
      and mt = "''jab''"]
  by (simp add: scores_ex_unknown_only)

subsection \<open>The rescale\<close>

lemma ex_scores:
  "calculateBTLScores exMoves exChoices ''jab'' =
     [\<lparr>move_id = ''a'', name = ''Jab 1'', characterDisplayName = ''Fox'',
        btlScore = 1/2, userWins = 1/2, userTotal = 1, winRate = 1/2,
        confidence = calculateConfidence 1\<rparr>,
      \<lparr>move_id = ''b'', name = ''Jab 1'', characterDisplayName = ''Link'',
        btlScore = 1/2, userWins = 1/2, userTotal = 1, winRate = 1/2,
        confidence = calculateConfidence 1\<rparr>,
      \<lparr>move_id = ''c'', name = ''Jab 1'', characterDisplayName = ''Mario'',
        btlScore = 1, userWins = 0, userTotal = 0, winRate = 0, confidence = 0\<rparr>]"
proof -
  have f: "filter (\<lambda>c. moveType c = ''jab'') exChoices = exChoices"
    by (simp add: exChoices_def jab_sel)
  have it: "calculateBTLIterative (createMoveDataMap exMoves exChoices)
              = [(''a'', 0), (''b'', 0), (''c'', 1)]"
    using confidence_one_bounds unfolding ex_cmd by (simp add: calculateBTLIterative_def seedScore_def Let_def)
  have ne: "exChoices \<noteq> []" by (simp add: exChoices_def)
  show ?thesis
    unfolding calculateBTLScores_def f Let_def it
    by (simp add: ne ex_cmd mkStanding_def orDefault_def Let_def exA_def exB_def exC_def
        calculateConfidence_def)
qed

lemma ex_cmd_win: "createMoveDataMap exMoves [jab ''a'' ''b'' 1] =
   [(''a'', \<lparr>move = exA, wins = 1, total = 1, opponents = {''b''}\<rparr>),
    (''b'', \<lparr>move = exB, wins = 0, total = 1, opponents = {''a''}\<rparr>)]"
  by (simp add: cmd_eval exMoves_def exA_def exB_def exC_def jab_def)

lemma ex_iterative_win:
  "calculateBTLIterative (createMoveDataMap exMoves [jab ''a'' ''b'' 1]) = [(''a'', 1), (''b'', 0)]"
  using confidence_one_bounds unfolding ex_cmd_win
  by (simp add: calculateBTLIterative_def seedScore_def Let_def)

lemma ex_spec_win:
  "specScores (createMoveDataMap exMoves [jab ''a'' ''b'' 1]) = [(''a'', 1), (''b'', 0)]"
  using spec_agrees [of "createMoveDataMap exMoves [jab ''a'' ''b'' 1]"] ex_iterative_win
  by (simp add: ex_cmd_win)

lemma ex_scores_win:
  "map btlScore (calculateBTLScores exMoves [jab ''a'' ''b'' 1] ''jab'') = [1, 1/2]"
proof -
  have f: "filter (\<lambda>c. moveType c = ''jab'') [jab ''a'' ''b'' 1] = [jab ''a'' ''b'' 1]"
    by (simp add: jab_sel)
  show ?thesis
    unfolding calculateBTLScores_def f Let_def ex_iterative_win
    by (simp add: ex_cmd_win mkStanding_def orDefault_def Let_def exA_def exB_def)
qed

text \<open>
  C2, at two failing inputs. Items \<open>a\<close> and \<open>b\<close> tie once and item \<open>c\<close> meets only an unknown
  id, so \<open>c\<close> has \<open>total = 0\<close>: the code takes the maximum and minimum over all three seeds
  and rescales all three, and \<open>c\<close> moves from its neutral 0.5 to 1, where the reference (and
  the comment ``give it a neutral score'') leaves it at 0.5. And when \<open>a\<close> beats \<open>b\<close> once,
  the rescaled score of \<open>b\<close> is 0, which \<open>btlScores[move.id] || 0.5\<close> turns into 0.5 in the
  standing, where the reference has 0.
\<close>

theorem rescale_failing_inputs:
  "map_of (calculateBTLIterative (createMoveDataMap exMoves exChoices)) ''c'' = Some 1
   \<and> map_of (specScores (createMoveDataMap exMoves exChoices)) ''c'' = Some (1/2)
   \<and> map btlScore (calculateBTLScores exMoves exChoices ''jab'') = [1/2, 1/2, 1]
   \<and> specScores (createMoveDataMap exMoves [jab ''a'' ''b'' 1]) = [(''a'', 1), (''b'', 0)]
   \<and> map btlScore (calculateBTLScores exMoves [jab ''a'' ''b'' 1] ''jab'') = [1, 1/2]"
  by (simp add: ex_code ex_spec ex_scores ex_spec_win ex_scores_win)

subsection \<open>Events with an unknown participant\<close>

text \<open>On events whose ids are ordinary keys the methods with inherited properties return
  what the methods on own keys return; in particular they do not raise.\<close>

lemma getProperty_ordinary:
  "i \<notin> protoKeys \<Longrightarrow> getProperty md i = map_option Own (map_of md i)"
  by (simp add: getProperty_def split: option.splits)

lemma addMove_proto_ordinary:
  "i \<notin> protoKeys \<Longrightarrow> addMove_proto moves i md = addMove moves i md"
  by (simp add: addMove_proto_def addMove_def getProperty_ordinary split: option.splits)

lemma initChoice_proto_ordinary:
  "move1_id c \<notin> protoKeys \<Longrightarrow> move2_id c \<notin> protoKeys \<Longrightarrow>
   initChoice_proto moves c md = initChoice moves c md"
  by (simp add: initChoice_proto_def initChoice_def addMove_proto_ordinary)

lemma processChoice_proto_ordinary:
  "move1_id c \<notin> protoKeys \<Longrightarrow> move2_id c \<notin> protoKeys \<Longrightarrow>
   processChoice_proto c md = Inr (processChoice c md)"
  by (auto simp: processChoice_proto_def processChoice_def getProperty_ordinary
      split: option.splits)

lemma fold_init_proto_ordinary:
  "participants cs \<inter> protoKeys = {} \<Longrightarrow>
   fold (initChoice_proto moves) cs md = fold (initChoice moves) cs md"
  by (induction cs arbitrary: md) (auto simp: participants_def initChoice_proto_ordinary)

lemma fold_process_proto_ordinary:
  "participants cs \<inter> protoKeys = {} \<Longrightarrow>
   fold (\<lambda>c r. case r of Inl e \<Rightarrow> Inl e | Inr md \<Rightarrow> processChoice_proto c md) cs (Inr md)
     = Inr (fold processChoice cs md)"
  by (induction cs arbitrary: md) (auto simp: participants_def processChoice_proto_ordinary)

lemma createMoveDataMap_proto_ordinary:
  "participants cs \<inter> protoKeys = {} \<Longrightarrow>
   createMoveDataMap_proto moves cs = Inr (createMoveDataMap moves cs)"
  by (simp add: createMoveDataMap_proto_def createMoveDataMap_def fold_init_proto_ordinary
      fold_process_proto_ordinary)

lemma calculateBTLScores_proto_ordinary:
  "participants (filter (\<lambda>c. moveType c = mt) userChoices) \<inter> protoKeys = {} \<Longrightarrow>
   calculateBTLScores_proto moves userChoices mt = Inr (calculateBTLScores moves userChoices mt)"
  by (simp add: calculateBTLScores_proto_def calculateBTLScores_def Let_def
      createMoveDataMap_proto_ordinary)

lemma constructor_proto: "''constructor'' \<in> protoKeys" and a_ordinary: "''a'' \<notin> protoKeys"
  by (simp_all add: protoKeys_def)

lemma ex_proto_throws:
  "calculateBTLScores_proto exMoves [jab ''constructor'' ''a'' 1] ''jab'' = Inl TypeError"
  by (simp add: calculateBTLScores_proto_def createMoveDataMap_proto_def initChoice_proto_def
      addMove_proto_def processChoice_proto_def getProperty_def constructor_proto a_ordinary
      jab_sel moveMap_def exMoves_def exA_def exB_def exC_def newEntry_def Let_def)

lemma ex_cmd_tie: "createMoveDataMap exMoves [jab ''a'' ''b'' 0] =
   [(''a'', \<lparr>move = exA, wins = 1/2, total = 1, opponents = {''b''}\<rparr>),
    (''b'', \<lparr>move = exB, wins = 1/2, total = 1, opponents = {''a''}\<rparr>)]"
  by (simp add: cmd_eval exMoves_def exA_def exB_def exC_def jab_def)



lemma ex_scores_tie:
  "calculateBTLScores exMoves [jab ''a'' ''b'' 0] ''jab'' =
     [\<lparr>move_id = ''a'', name = ''Jab 1'', characterDisplayName = ''Fox'',
        btlScore = 1/4 + calculateConfidence 1 / 4, userWins = 1/2, userTotal = 1, winRate = 1/2,
        confidence = calculateConfidence 1\<rparr>,
      \<lparr>move_id = ''b'', name = ''Jab 1'', characterDisplayName = ''Link'',
        btlScore = 1/4 + calculateConfidence 1 / 4, userWins = 1/2, userTotal = 1, winRate = 1/2,
        confidence = calculateConfidence 1\<rparr>]"
proof -
  have f: "filter (\<lambda>c. moveType c = ''jab'') [jab ''a'' ''b'' 0] = [jab ''a'' ''b'' 0]"
    by (simp add: jab_sel)
  have it: "calculateBTLIterative (createMoveDataMap exMoves [jab ''a'' ''b'' 0])
              = [(''a'', 1/4 + calculateConfidence 1 / 4), (''b'', 1/4 + calculateConfidence 1 / 4)]"
    unfolding ex_cmd_tie by (simp add: calculateBTLIterative_def seedScore_def Let_def algebra_simps)
  have nz: "1/4 + calculateConfidence 1 / 4 \<noteq> 0"
    using confidence_one_bounds by simp
  show ?thesis
    unfolding calculateBTLScores_def f Let_def it
    using nz by (simp add: ex_cmd_tie mkStanding_def orDefault_def Let_def exA_def exB_def)
qed

text \<open>
  C6, at two failing inputs. An event between the unknown id \<open>constructor\<close> and the known
  item \<open>a\<close> passes the guard of the tally loop, because \<open>moveData['constructor']\<close> is an
  inherited function, and the method raises a \<open>TypeError\<close>. And an event between the known
  item \<open>c\<close> and the unknown id \<open>u\<close> is not skipped entirely: added to a log in which \<open>a\<close> and
  \<open>b\<close> tie once, it makes a third standing (for \<open>c\<close>, with total 0) and changes the scores of
  \<open>a\<close> and \<open>b\<close>.
\<close>

theorem unknown_participant_event_failing_inputs:
  "calculateBTLScores_proto exMoves [jab ''constructor'' ''a'' 1] ''jab'' = Inl TypeError
   \<and> calculateBTLScores_proto exMoves [jab ''a'' ''b'' 0] ''jab''
       = Inr (calculateBTLScores exMoves [jab ''a'' ''b'' 0] ''jab'')
   \<and> calculateBTLScores_proto exMoves [jab ''a'' ''b'' 0, jab ''c'' ''u'' 1] ''jab''
       = Inr (calculateBTLScores exMoves [jab ''a'' ''b'' 0, jab ''c'' ''u'' 1] ''jab'')
   \<and> map move_id (calculateBTLScores exMoves [jab ''a'' ''b'' 0] ''jab'') = [''a'', ''b'']
   \<and> map move_id (calculateBTLScores exMoves [jab ''a'' ''b'' 0, jab ''c'' ''u'' 1] ''jab'')
       = [''a'', ''b'', ''c'']
   \<and> map userTotal (calculateBTLScores exMoves [jab ''a'' ''b'' 0, jab ''c'' ''u'' 1] ''jab'')
       = [1, 1, 0]
   \<and> map btlScore (calculateBTLScores exMoves [jab ''a'' ''b'' 0] ''jab'')
       = [1/4 + calculateConfidence 1 / 4, 1/4 + calculateConfidence 1 / 4]
   \<and> map btlScore (calculateBTLScores exMoves [jab ''a'' ''b'' 0, jab ''c'' ''u'' 1] ''jab'')
       = [1/2, 1/2, 1]
   \<and> 1/4 + calculateConfidence 1 / 4 < 1/2"
proof -
  have o1: "participants (filter (\<lambda>c. moveType c = ''jab'') [jab ''a'' ''b'' 0]) \<inter> protoKeys = {}"
    by (simp add: participants_def jab_sel protoKeys_def)
  have o2: "participants (filter (\<lambda>c. moveType c = ''jab'') [jab ''a'' ''b'' 0, jab ''c'' ''u'' 1])
              \<inter> protoKeys = {}"
    by (simp add: participants_def jab_sel protoKeys_def)
  have e: "[jab ''a'' ''b'' 0, jab ''c'' ''u'' 1] = exChoices" by (simp add: exChoices_def)
  show ?thesis
    using confidence_one_bounds
    by (simp add: ex_proto_throws calculateBTLScores_proto_ordinary [OF o1]
        calculateBTLScores_proto_ordinary [OF o2] ex_scores_tie)
       (simp add: e ex_scores)
qed

subsection \<open>Ties\<close>



subsection \<open>A known item with only unknown opponents\<close>

lemma tallyTotal_unknown_opponents:
  assumes "\<forall>c\<in>set cs. (move1_id c = i \<longrightarrow> move2_id c \<notin> move_id ` set moves)
                     \<and> (move2_id c = i \<longrightarrow> move1_id c \<notin> move_id ` set moves)"
  shows "tallyTotal moves cs i = 0"
  using assms
  by (auto simp: tallyTotal_def totalGain_def counted_def known_def)

text \<open>
  C10: a known item that occurs in the events of the category, but only in events whose other
  participant is unknown, still gets a standing, with win count 0, total count 0, win rate 0
  and confidence 0. Its seed 0.5 is among the values over which the maximum and minimum are
  taken, and its final score is the rescaled seed \<open>(0.5 - min) / (max - min)\<close> whenever the
  minimum is below 0.5 (and 0.5 when all seeds are equal); in the example it is 1.
\<close>

theorem known_item_with_unknown_opponents:
  assumes "tc = filter (\<lambda>c. moveType c = mt) userChoices"
    and "i \<in> move_id ` set moves"
    and "i \<in> move1_id ` set tc \<union> move2_id ` set tc"
    and "\<forall>c\<in>set tc. (move1_id c = i \<longrightarrow> move2_id c \<notin> move_id ` set moves)
                     \<and> (move2_id c = i \<longrightarrow> move1_id c \<notin> move_id ` set moves)"
  shows "\<exists>r \<in> set (calculateBTLScores moves userChoices mt).
           move_id r = i \<and> userWins r = 0 \<and> userTotal r = 0 \<and> winRate r = 0 \<and> confidence r = 0
           \<and> (let V = seedScore ` snd ` set (createMoveDataMap moves tc)
              in 1/2 \<in> V
                 \<and> (Min V < 1/2 \<longrightarrow> btlScore r = (1/2 - Min V) / (Max V - Min V))
                 \<and> (Max V = Min V \<longrightarrow> btlScore r = 1/2))"
proof -
  let ?md = "createMoveDataMap moves tc"
  let ?V = "seedScore ` snd ` set ?md"
  from assms(2,3) obtain d where d: "(i, d) \<in> set ?md" and m: "map_of ?md i = Some d"
    using cmd_exists [of i tc moves] by (auto simp: participants_def known_def)
  have t0: "total d = 0"
    using cmd_entry(3) [OF d] tallyTotal_unknown_opponents [OF assms(4)] by simp
  have w0: "wins d = 0"
    using cmd_entry(4) [OF d] tallyWins_bounds [of moves tc i] cmd_entry(3) [OF d] t0 by simp
  have id: "move_id (move d) = i" using d by (rule cmd_entry(6))
  have seed: "seedScore d = 1/2" using t0 by (simp add: seedScore_def)
  have inV: "1/2 \<in> ?V" using d seed by force
  have fin: "finite ?V" by simp
  have hi: "1/2 \<le> Max ?V" using fin inV by (rule Max_ge)
  let ?r = "mkStanding (calculateBTLIterative ?md) d"
  have mem: "?r \<in> set (calculateBTLScores moves userChoices mt)"
    using d unfolding assms(1) by (rule scores_of_entry)
  have sc: "btlScore ?r = orDefault (Some (rescaled ?V (1/2)))"
    by (simp add: mkStanding_simps id map_of_iterative m seed)
  have low: "btlScore ?r = (1/2 - Min ?V) / (Max ?V - Min ?V)" if "Min ?V < 1/2"
  proof -
    from that hi have "0 < (1/2 - Min ?V) / (Max ?V - Min ?V)" by simp
    with that hi show ?thesis unfolding sc by (simp add: orDefault_def rescaled_def)
  qed
  have flat: "btlScore ?r = 1/2" if "Max ?V = Min ?V"
    using that unfolding sc by (simp add: orDefault_def rescaled_def)
  from inV low flat have "let V = ?V in 1/2 \<in> V
      \<and> (Min V < 1/2 \<longrightarrow> btlScore ?r = (1/2 - Min V) / (Max V - Min V))
      \<and> (Max V = Min V \<longrightarrow> btlScore ?r = 1/2)"
    by (simp add: Let_def)
  moreover have "move_id ?r = i" "userWins ?r = 0" "userTotal ?r = 0" "winRate ?r = 0"
    "confidence ?r = 0"
    using t0 w0 id by (simp_all add: mkStanding_simps calculateConfidence_def)
  ultimately show ?thesis using mem by blast
qed

lemma ex_seeds:
  "seedScore ` snd ` set (createMoveDataMap exMoves exChoices)
     = {1/4 + calculateConfidence 1 / 4, 1/2}"
  by (simp add: ex_cmd seedScore_def Let_def algebra_simps insert_commute)

lemma ex_seeds_Min: "Min {1/4 + calculateConfidence 1 / 4, 1/2} = 1/4 + calculateConfidence 1 / 4"
  and ex_seeds_Max: "Max {1/4 + calculateConfidence 1 / 4, 1/2} = 1/2"
  using confidence_one_bounds by simp_all

theorem known_item_with_unknown_opponents_witness:
  "\<exists>r \<in> set (calculateBTLScores exMoves exChoices ''jab'').
      move_id r = ''c'' \<and> userWins r = 0 \<and> userTotal r = 0 \<and> winRate r = 0 \<and> confidence r = 0
      \<and> btlScore r = 1"
proof -
  have f: "exChoices = filter (\<lambda>c. moveType c = ''jab'') exChoices"
    by (simp add: exChoices_def jab_sel)
  have "\<exists>r \<in> set (calculateBTLScores exMoves exChoices ''jab'').
           move_id r = ''c'' \<and> userWins r = 0 \<and> userTotal r = 0 \<and> winRate r = 0 \<and> confidence r = 0
           \<and> (let V = seedScore ` snd ` set (createMoveDataMap exMoves exChoices)
              in 1/2 \<in> V
                 \<and> (Min V < 1/2 \<longrightarrow> btlScore r = (1/2 - Min V) / (Max V - Min V))
                 \<and> (Max V = Min V \<longrightarrow> btlScore r = 1/2))"
    by (rule known_item_with_unknown_opponents [OF f])
       (simp_all add: exMoves_def exChoices_def jab_sel exA_def exB_def exC_def)
  then obtain r where r: "r \<in> set (calculateBTLScores exMoves exChoices ''jab'')"
    "move_id r = ''c''" "userWins r = 0" "userTotal r = 0" "winRate r = 0" "confidence r = 0"
    and low: "Min {1/4 + calculateConfidence 1 / 4, 1/2} < 1/2 \<longrightarrow>
       btlScore r = (1/2 - Min {1/4 + calculateConfidence 1 / 4, 1/2})
                    / (Max {1/4 + calculateConfidence 1 / 4, 1/2}
                       - Min {1/4 + calculateConfidence 1 / 4, 1/2})"
    unfolding ex_seeds Let_def by blast
  from low confidence_one_bounds have "btlScore r = 1"
    unfolding ex_seeds_Min ex_seeds_Max by simp
  with r show ?thesis by blast
qed

subsection \<open>Prediction\<close>

text \<open>The win tallies that \<open>createMoveDataMap\<close> produces are never negative.\<close>

lemma cmd_wins_nonneg:
  "map_of (createMoveDataMap moves cs) k = Some d \<Longrightarrow> 0 \<le> wins d"
  using cmd_Some(4) [of moves cs k d] tallyWins_bounds [of moves cs k] by simp

lemma ex_cmd_loss: "createMoveDataMap exMoves [jab ''b'' ''a'' 1, jab ''c'' ''u'' 1] =
   [(''b'', \<lparr>move = exB, wins = 1, total = 1, opponents = {''a''}\<rparr>),
    (''a'', \<lparr>move = exA, wins = 0, total = 1, opponents = {''b''}\<rparr>),
    (''c'', \<lparr>move = exC, wins = 0, total = 0, opponents = {}\<rparr>)]"
  by (simp add: cmd_eval exMoves_def exA_def exB_def exC_def jab_def)

lemma ex_winRates_loss:
  "map (\<lambda>r. (move_id r, winRate r))
     (calculateBTLScores exMoves [jab ''b'' ''a'' 1, jab ''c'' ''u'' 1] ''jab'')
   = [(''b'', 1), (''a'', 0), (''c'', 0)]"
proof -
  have f: "filter (\<lambda>c. moveType c = ''jab'') [jab ''b'' ''a'' 1, jab ''c'' ''u'' 1]
             = [jab ''b'' ''a'' 1, jab ''c'' ''u'' 1]"
    by (simp add: jab_sel)
  show ?thesis
    unfolding calculateBTLScores_def f Let_def
    by (simp add: ex_cmd_loss mkStanding_simps comp_def exA_def exB_def exC_def)
qed

text \<open>
  C8, as stated, fails when a tally has total 0. After \<open>b\<close> beats \<open>a\<close> and \<open>c\<close> meets an
  unknown id, the win rates of \<open>c\<close> (0 of 0) and \<open>a\<close> (0 of 1) are both 0, as the standings
  report them; yet the prediction for \<open>c\<close> against \<open>a\<close> is not 0.5 each: it is 1 against 0,
  with \<open>c\<close> the predicted winner, because the method takes 0.5 as the win rate of a tally with
  total 0.
\<close>

theorem prediction_zero_total_counterexample:
  "map (\<lambda>r. (move_id r, winRate r))
     (calculateBTLScores exMoves [jab ''b'' ''a'' 1, jab ''c'' ''u'' 1] ''jab'')
     = [(''b'', 1), (''a'', 0), (''c'', 0)]
   \<and> move1Score (calculateBTLPrediction exC exA
        (createMoveDataMap exMoves [jab ''b'' ''a'' 1, jab ''c'' ''u'' 1])) = 1
   \<and> move2Score (calculateBTLPrediction exC exA
        (createMoveDataMap exMoves [jab ''b'' ''a'' 1, jab ''c'' ''u'' 1])) = 0
   \<and> predictedWinner (calculateBTLPrediction exC exA
        (createMoveDataMap exMoves [jab ''b'' ''a'' 1, jab ''c'' ''u'' 1])) = 1"
  unfolding ex_winRates_loss ex_cmd_loss
  by (simp add: calculateBTLPrediction_def predWinRate_def Let_def exA_def exC_def)

text \<open>
  C8 (amended): for two items whose tallies are present (with non-negative win tallies),
  with the win rate of \<open>calculateBTLPrediction\<close>, which is \<open>wins / total\<close> for \<open>total > 0\<close> and
  0.5 for \<open>total = 0\<close>: \<open>scoreA = winRateA / (winRateA + winRateB)\<close> and
  \<open>scoreB = winRateB / (winRateA + winRateB)\<close>, and both scores are 0.5 when both win rates
  are 0; the predicted winner is 1 exactly when \<open>scoreA > scoreB + 0.1\<close>, 2 exactly when
  \<open>scoreB > scoreA + 0.1\<close>, and 0 (no clear prediction) exactly when neither holds; the
  confidence is \<open>calculateConfidence (totalA + totalB)\<close>. (In exact arithmetic
  \<open>scoreB = 1 - scoreA\<close>, and there is no clear prediction exactly when
  \<open>|scoreA - scoreB| \<le> 0.1\<close>.)
\<close>

theorem prediction_scores:
  assumes "map_of md (move_id m1) = Some d1" "map_of md (move_id m2) = Some d2"
    and "0 \<le> wins d1" "0 \<le> wins d2"
    and "p = calculateBTLPrediction m1 m2 md"
    and "rA = (if total d1 > 0 then wins d1 / real (total d1) else 1/2)"
    and "rB = (if total d2 > 0 then wins d2 / real (total d2) else 1/2)"
  shows "(rA = 0 \<and> rB = 0 \<longrightarrow> move1Score p = 1/2 \<and> move2Score p = 1/2)
       \<and> (\<not> (rA = 0 \<and> rB = 0) \<longrightarrow>
            move1Score p = rA / (rA + rB) \<and> move2Score p = rB / (rA + rB))
       \<and> (predictedWinner p = 1 \<longleftrightarrow> move1Score p > move2Score p + 0.1)
       \<and> (predictedWinner p = 2 \<longleftrightarrow> move2Score p > move1Score p + 0.1)
       \<and> (predictedWinner p = 0 \<longleftrightarrow>
            \<not> move1Score p > move2Score p + 0.1 \<and> \<not> move2Score p > move1Score p + 0.1)
       \<and> pconfidence p = calculateConfidence (real (total d1 + total d2))"
proof -
  have a: "0 \<le> rA" and b: "0 \<le> rB" using assms(3,4,6,7) by simp_all
  have ra: "predWinRate d1 = rA" and rb: "predWinRate d2 = rB"
    using assms(6,7) by (simp_all add: predWinRate_def)
  have s1: "move1Score p = (if rA + rB > 0 then rA / (rA + rB) else 1/2)"
    and s2: "move2Score p = (if rA + rB > 0 then rB / (rA + rB) else 1/2)"
    and w: "predictedWinner p = (if move1Score p > move2Score p + 0.1 then 1
              else if move2Score p > move1Score p + 0.1 then 2 else 0)"
    and c: "pconfidence p = calculateConfidence (real (total d1 + total d2))"
    unfolding assms(5) using assms(1,2)
    by (simp_all add: calculateBTLPrediction_def Let_def ra rb)
  have z: "rA + rB > 0 \<longleftrightarrow> \<not> (rA = 0 \<and> rB = 0)" using a b by auto
  have band: "(k = 1 \<longleftrightarrow> x > y + 0.1) \<and> (k = 2 \<longleftrightarrow> y > x + 0.1)
       \<and> (k = 0 \<longleftrightarrow> \<not> x > y + 0.1 \<and> \<not> y > x + 0.1)"
    if "k = (if x > y + 0.1 then 1 else if y > x + 0.1 then 2 else 0)" for k :: nat and x y :: real
    using that by auto
  have scores: "(rA = 0 \<and> rB = 0 \<longrightarrow> move1Score p = 1/2 \<and> move2Score p = 1/2)
       \<and> (\<not> (rA = 0 \<and> rB = 0) \<longrightarrow>
            move1Score p = rA / (rA + rB) \<and> move2Score p = rB / (rA + rB))"
    using z by (auto simp: s1 s2)
  from band [OF w] scores c show ?thesis
    by (intro conjI) (elim conjE, assumption)+
qed

theorem prediction_scores_witness:
  "move1Score (calculateBTLPrediction exA exB
        [(''a'', \<lparr>move = exA, wins = 3, total = 4, opponents = {''b''}\<rparr>),
         (''b'', \<lparr>move = exB, wins = 1, total = 4, opponents = {''a''}\<rparr>)]) = 3/4
   \<and> move2Score (calculateBTLPrediction exA exB
        [(''a'', \<lparr>move = exA, wins = 3, total = 4, opponents = {''b''}\<rparr>),
         (''b'', \<lparr>move = exB, wins = 1, total = 4, opponents = {''a''}\<rparr>)]) = 1/4
   \<and> predictedWinner (calculateBTLPrediction exA exB
        [(''a'', \<lparr>move = exA, wins = 3, total = 4, opponents = {''b''}\<rparr>),
         (''b'', \<lparr>move = exB, wins = 1, total = 4, opponents = {''a''}\<rparr>)]) = 1"
proof -
  let ?md = "[(''a'', \<lparr>move = exA, wins = 3, total = 4, opponents = {''b''}\<rparr>),
         (''b'', \<lparr>move = exB, wins = 1, total = 4, opponents = {''a''}\<rparr>)]"
  have 1: "map_of ?md (move_id exA) = Some \<lparr>move = exA, wins = 3, total = 4, opponents = {''b''}\<rparr>"
    and 2: "map_of ?md (move_id exB) = Some \<lparr>move = exB, wins = 1, total = 4, opponents = {''a''}\<rparr>"
    by (simp_all add: exA_def exB_def)
  note inst = prediction_scores [OF 1 2 _ _ refl refl refl]
  have s: "move1Score (calculateBTLPrediction exA exB ?md) = 3/4"
    "move2Score (calculateBTLPrediction exA exB ?md) = 1/4"
    using inst [THEN conjunct2, THEN conjunct1] by simp_all
  have "predictedWinner (calculateBTLPrediction exA exB ?md) = 1"
    using inst [THEN conjunct2, THEN conjunct2, THEN conjunct1] s by simp
  with s show ?thesis by simp
qed

subsection \<open>Tiers by rank position\<close>

lemma mset_insertBy: "mset (insertBy cmp x ys) = add_mset x (mset ys)"
  by (induction ys) auto

lemma mset_sortBy: "mset (sortBy cmp xs) = mset xs"
  by (induction xs) (auto simp: sortBy_def mset_insertBy)

lemma set_sortBy: "set (sortBy cmp xs) = set xs"
  using mset_sortBy [of cmp xs] by (metis set_mset_mset)

lemma length_sortBy: "length (sortBy cmp xs) = length xs"
  using mset_sortBy [of cmp xs] by (metis size_mset)

lemma set_insertBy: "set (insertBy cmp x ys) = insert x (set ys)"
  using mset_insertBy [of cmp x ys] by (metis set_mset_mset set_mset_add_mset_insert)

lemma sorted_insertBy_score:
  "sorted_wrt (\<lambda>a b. btlScore b \<le> btlScore a) ys \<Longrightarrow>
   sorted_wrt (\<lambda>a b. btlScore b \<le> btlScore a) (insertBy byScoreDesc x ys)"
  by (induction ys) (auto simp: set_insertBy byScoreDesc_def)

lemma sorted_sortBy_score:
  "sorted_wrt (\<lambda>a b. btlScore b \<le> btlScore a) (sortBy byScoreDesc xs)"
proof (induction xs)
  case Nil
  then show ?case by (simp add: sortBy_def)
next
  case (Cons x xs)
  then show ?case using sorted_insertBy_score [of "sortBy byScoreDesc xs" x]
    by (simp add: sortBy_def)
qed

lemma fold_push_Cons:
  "fold (\<lambda>(index, m). push (g index) m) (enumerate k (y # ys)) acc =
        fold (\<lambda>(index, m). push (g index) m) (enumerate (Suc k) ys) (push (g k) y acc)"
  apply (subst enumerate_simps)
  apply (subst fold_simps)
  apply (subst prod.case)
  apply (rule refl)
  done

lemma fold_push:
  "fold (\<lambda>(index, m). push (g index) m) (enumerate k ys) acc t =
     acc t @ map snd (filter (\<lambda>(i, m). g i = t) (enumerate k ys))"
proof (induction ys arbitrary: k acc)
  case Nil
  then show ?case by simp
next
  case (Cons y ys)
  have "fold (\<lambda>(index, m). push (g index) m) (enumerate k (y # ys)) acc t =
        fold (\<lambda>(index, m). push (g index) m) (enumerate (Suc k) ys) (push (g k) y acc) t"
    by (simp only: fold_push_Cons)
  also have "\<dots> = push (g k) y acc t @ map snd (filter (\<lambda>(i, m). g i = t) (enumerate (Suc k) ys))"
    by (rule Cons.IH [of "Suc k" "push (g k) y acc"])
  also have "\<dots> = acc t @ map snd (filter (\<lambda>(i, m). g i = t) (enumerate k (y # ys)))"
    by (simp add: push_def)
  finally show ?case .
qed

lemma enumerate_filter_nth:
  "map snd (filter (\<lambda>(i, m). P i) (enumerate 0 ys)) = map ((!) ys) (filter P [0..<length ys])"
proof -
  have "enumerate 0 ys = map (\<lambda>i. (i, ys ! i)) [0..<length ys]"
    by (rule nth_equalityI) (simp_all add: nth_enumerate_eq)
  then show ?thesis by (simp add: filter_map comp_def)
qed

lemma tiers_bucket:
  "snd (groupMovesByTier xs) t =
     map ((!) (sortBy byScoreDesc xs))
       (filter (\<lambda>i. tierOfIndex i (length xs) = t) [0..<length xs])"
  by (simp add: groupMovesByTier_def Let_def fold_push enumerate_filter_nth length_sortBy)

lemma tierOfIndex_nat:
  assumes "0 < n"
  shows "tierOfIndex i n =
     (if 10 * i < n then S else if 4 * i < n then A else if 2 * i < n then B
      else if 4 * i < 3 * n then C else if 10 * i < 9 * n then D else F)"
proof -
  have p: "(real i / real n * 100 < real k) \<longleftrightarrow> 100 * i < k * n" for k :: nat
  proof -
    have "(real i / real n * 100 < real k) \<longleftrightarrow> real (100 * i) < real (k * n)"
      using assms by (simp add: field_simps)
    then show ?thesis by (simp only: of_nat_less_iff)
  qed
  have "real i / real n * 100 < 10 \<longleftrightarrow> 10 * i < n" using p [of 10] by simp
  moreover have "real i / real n * 100 < 25 \<longleftrightarrow> 4 * i < n" using p [of 25] by simp
  moreover have "real i / real n * 100 < 50 \<longleftrightarrow> 2 * i < n" using p [of 50] by simp
  moreover have "real i / real n * 100 < 75 \<longleftrightarrow> 4 * i < 3 * n" using p [of 75] by auto
  moreover have "real i / real n * 100 < 90 \<longleftrightarrow> 10 * i < 9 * n" using p [of 90] by auto
  ultimately show ?thesis by (simp add: tierOfIndex_def Let_def)
qed

lemma filter_split_sorted:
  fixes xs :: "nat list"
  assumes "sorted xs" and "\<And>i j. i \<le> j \<Longrightarrow> P j \<Longrightarrow> P i"
  shows "filter P xs @ filter (\<lambda>x. \<not> P x) xs = xs"
  using assms(1)
proof (induction xs)
  case Nil
  then show ?case by simp
next
  case (Cons x xs)
  show ?case
  proof (cases "P x")
    case True
    with Cons show ?thesis by simp
  next
    case False
    with Cons.prems assms(2) have "\<forall>y \<in> set xs. \<not> P y" by auto
    then have "filter P xs = []" "filter (\<lambda>x. \<not> P x) xs = xs"
      by (simp_all add: filter_empty_conv filter_id_conv)
    with False show ?thesis by simp
  qed
qed

lemma tier_indices_concat:
  "filter (\<lambda>i. tierOfIndex i n = S) [0..<n] @ filter (\<lambda>i. tierOfIndex i n = A) [0..<n]
   @ filter (\<lambda>i. tierOfIndex i n = B) [0..<n] @ filter (\<lambda>i. tierOfIndex i n = C) [0..<n]
   @ filter (\<lambda>i. tierOfIndex i n = D) [0..<n] @ filter (\<lambda>i. tierOfIndex i n = F) [0..<n]
   = [0..<n]"
proof (cases "n = 0")
  case True
  then show ?thesis by simp
next
  case False
  then have n: "0 < n" by simp
  define r1 where "r1 = filter (\<lambda>i. \<not> 10 * i < n) [0..<n]"
  define r2 where "r2 = filter (\<lambda>i. \<not> 4 * i < n) r1"
  define r3 where "r3 = filter (\<lambda>i. \<not> 2 * i < n) r2"
  define r4 where "r4 = filter (\<lambda>i. \<not> 4 * i < 3 * n) r3"
  define r5 where "r5 = filter (\<lambda>i. \<not> 10 * i < 9 * n) r4"
  have s: "sorted [0..<n]" "sorted r1" "sorted r2" "sorted r3" "sorted r4"
    by (simp_all add: r1_def r2_def r3_def r4_def sorted_wrt_filter)
  have 1: "filter (\<lambda>i. 10 * i < n) [0..<n] @ r1 = [0..<n]"
    unfolding r1_def by (rule filter_split_sorted [OF s(1)]) simp
  have 2: "filter (\<lambda>i. 4 * i < n) r1 @ r2 = r1"
    unfolding r2_def by (rule filter_split_sorted [OF s(2)]) simp
  have 3: "filter (\<lambda>i. 2 * i < n) r2 @ r3 = r2"
    unfolding r3_def by (rule filter_split_sorted [OF s(3)]) simp
  have 4: "filter (\<lambda>i. 4 * i < 3 * n) r3 @ r4 = r3"
    unfolding r4_def by (rule filter_split_sorted [OF s(4)]) simp
  have 5: "filter (\<lambda>i. 10 * i < 9 * n) r4 @ r5 = r4"
    unfolding r5_def by (rule filter_split_sorted [OF s(5)]) simp
  have bS: "filter (\<lambda>i. tierOfIndex i n = S) [0..<n] = filter (\<lambda>i. 10 * i < n) [0..<n]"
    by (rule filter_cong) (simp_all add: tierOfIndex_nat [OF n])
  have bA: "filter (\<lambda>i. tierOfIndex i n = A) [0..<n] = filter (\<lambda>i. 4 * i < n) r1"
    unfolding r1_def filter_filter by (rule filter_cong) (simp_all add: tierOfIndex_nat [OF n])
  have bB: "filter (\<lambda>i. tierOfIndex i n = B) [0..<n] = filter (\<lambda>i. 2 * i < n) r2"
    unfolding r1_def r2_def filter_filter
    by (rule filter_cong) (simp_all add: tierOfIndex_nat [OF n])
  have bC: "filter (\<lambda>i. tierOfIndex i n = C) [0..<n] = filter (\<lambda>i. 4 * i < 3 * n) r3"
    unfolding r1_def r2_def r3_def filter_filter
    by (rule filter_cong) (simp_all add: tierOfIndex_nat [OF n])
  have bD: "filter (\<lambda>i. tierOfIndex i n = D) [0..<n] = filter (\<lambda>i. 10 * i < 9 * n) r4"
    unfolding r1_def r2_def r3_def r4_def filter_filter
    by (rule filter_cong) (simp_all add: tierOfIndex_nat [OF n])
  have bF: "filter (\<lambda>i. tierOfIndex i n = F) [0..<n] = r5"
    unfolding r1_def r2_def r3_def r4_def r5_def filter_filter
    by (rule filter_cong) (simp_all add: tierOfIndex_nat [OF n])
  show ?thesis unfolding bS bA bB bC bD bF by (simp only: 5 4 3 2 1)
qed

lemma tiers_concat:
  "snd (groupMovesByTier xs) S @ snd (groupMovesByTier xs) A @ snd (groupMovesByTier xs) B
   @ snd (groupMovesByTier xs) C @ snd (groupMovesByTier xs) D @ snd (groupMovesByTier xs) F
   = sortBy byScoreDesc xs"
proof -
  have "map ((!) (sortBy byScoreDesc xs)) [0..<length xs] = sortBy byScoreDesc xs"
    using map_nth [of "sortBy byScoreDesc xs"] by (simp add: length_sortBy)
  then show ?thesis
    unfolding tiers_bucket map_append [symmetric] tier_indices_concat [of "length xs"] .
qed

lemma exStanding_score: "btlScore (exStanding i s) = s"
  by (simp add: exStanding_def)

lemma sort_ex_two:
  "sortBy byScoreDesc [exStanding ''a'' (1/5), exStanding ''b'' (9/10)]
     = [exStanding ''b'' (9/10), exStanding ''a'' (1/5)]"
  by (simp add: sortBy_def byScoreDesc_def exStanding_score)

lemma sort_ex_tied:
  "sortBy byScoreDesc [exStanding ''a'' (1/2), exStanding ''b'' (1/2)]
     = [exStanding ''a'' (1/2), exStanding ''b'' (1/2)]"
  by (simp add: sortBy_def byScoreDesc_def exStanding_score)

lemma tierOfIndex_two:
  "tierOfIndex 0 2 = S" "tierOfIndex 1 2 = C"
  "tierOfIndex 0 (Suc (Suc 0)) = S" "tierOfIndex (Suc 0) (Suc (Suc 0)) = C"
  by (simp_all add: tierOfIndex_def)

lemma upt_2: "[0..<2] = [0, 1]"
  by (simp add: upt_rec)

text \<open>
  C5: the six buckets returned by \<open>groupMovesByTier\<close> partition the input (as multisets:
  nothing dropped, nothing duplicated); read from S to F they are the input sorted by score,
  highest first; and the bucket of the standing at rank position \<open>i\<close> of \<open>n\<close> is chosen by
  the percentile \<open>100 i / n\<close>: below 10 S, below 25 A, below 50 B, below 75 C, below 90 D,
  otherwise F.
\<close>

theorem groupMovesByTier_partition:
  "mset (snd (groupMovesByTier xs) S) + mset (snd (groupMovesByTier xs) A)
     + mset (snd (groupMovesByTier xs) B) + mset (snd (groupMovesByTier xs) C)
     + mset (snd (groupMovesByTier xs) D) + mset (snd (groupMovesByTier xs) F) = mset xs
   \<and> snd (groupMovesByTier xs) S @ snd (groupMovesByTier xs) A @ snd (groupMovesByTier xs) B
     @ snd (groupMovesByTier xs) C @ snd (groupMovesByTier xs) D @ snd (groupMovesByTier xs) F
     = sortBy byScoreDesc xs
   \<and> mset (sortBy byScoreDesc xs) = mset xs
   \<and> sorted_wrt (\<lambda>a b. btlScore b \<le> btlScore a) (sortBy byScoreDesc xs)
   \<and> (\<forall>t. snd (groupMovesByTier xs) t =
          map ((!) (sortBy byScoreDesc xs))
            (filter (\<lambda>i. tierOfIndex i (length xs) = t) [0..<length xs]))
   \<and> (\<forall>i < length xs. tierOfIndex i (length xs) =
          (if 100 * i < 10 * length xs then S
           else if 100 * i < 25 * length xs then A
           else if 100 * i < 50 * length xs then B
           else if 100 * i < 75 * length xs then C
           else if 100 * i < 90 * length xs then D
           else F))"
proof (intro conjI allI impI)
  have "mset (snd (groupMovesByTier xs) S @ snd (groupMovesByTier xs) A @ snd (groupMovesByTier xs) B
     @ snd (groupMovesByTier xs) C @ snd (groupMovesByTier xs) D @ snd (groupMovesByTier xs) F)
     = mset xs"
    unfolding tiers_concat by (rule mset_sortBy)
  then show "mset (snd (groupMovesByTier xs) S) + mset (snd (groupMovesByTier xs) A)
     + mset (snd (groupMovesByTier xs) B) + mset (snd (groupMovesByTier xs) C)
     + mset (snd (groupMovesByTier xs) D) + mset (snd (groupMovesByTier xs) F) = mset xs"
    by (simp add: ac_simps)
next
  show "snd (groupMovesByTier xs) S @ snd (groupMovesByTier xs) A @ snd (groupMovesByTier xs) B
     @ snd (groupMovesByTier xs) C @ snd (groupMovesByTier xs) D @ snd (groupMovesByTier xs) F
     = sortBy byScoreDesc xs" by (rule tiers_concat)
next
  show "mset (sortBy byScoreDesc xs) = mset xs" by (rule mset_sortBy)
next
  show "sorted_wrt (\<lambda>a b. btlScore b \<le> btlScore a) (sortBy byScoreDesc xs)"
    by (rule sorted_sortBy_score)
next
  fix t show "snd (groupMovesByTier xs) t =
          map ((!) (sortBy byScoreDesc xs))
            (filter (\<lambda>i. tierOfIndex i (length xs) = t) [0..<length xs])"
    by (rule tiers_bucket)
next
  fix i assume "i < length xs"
  then have "0 < length xs" by (cases xs) simp_all
  from tierOfIndex_nat [OF this, of i]
  show "tierOfIndex i (length xs) =
          (if 100 * i < 10 * length xs then S
           else if 100 * i < 25 * length xs then A
           else if 100 * i < 50 * length xs then B
           else if 100 * i < 75 * length xs then C
           else if 100 * i < 90 * length xs then D
           else F)"
    by simp
qed

theorem groupMovesByTier_partition_witness:
  "snd (groupMovesByTier [exStanding ''a'' (1/5), exStanding ''b'' (9/10)]) S
      = [exStanding ''b'' (9/10)]
   \<and> snd (groupMovesByTier [exStanding ''a'' (1/5), exStanding ''b'' (9/10)]) C
      = [exStanding ''a'' (1/5)]
   \<and> tierOfIndex 1 (length [exStanding ''a'' (1/5), exStanding ''b'' (9/10)]) = C"
proof -
  note inst = groupMovesByTier_partition [of "[exStanding ''a'' (1/5), exStanding ''b'' (9/10)]"]
  note buckets = inst [THEN conjunct2, THEN conjunct2, THEN conjunct2, THEN conjunct2,
      THEN conjunct1]
  note bands = inst [THEN conjunct2, THEN conjunct2, THEN conjunct2, THEN conjunct2,
      THEN conjunct2]
  have "snd (groupMovesByTier [exStanding ''a'' (1/5), exStanding ''b'' (9/10)]) S
      = [exStanding ''b'' (9/10)]"
    using buckets [THEN spec, of S] by (simp add: sort_ex_two tierOfIndex_two)
  moreover have "snd (groupMovesByTier [exStanding ''a'' (1/5), exStanding ''b'' (9/10)]) C
      = [exStanding ''a'' (1/5)]"
    using buckets [THEN spec, of C] by (simp add: sort_ex_two tierOfIndex_two)
  moreover have "tierOfIndex 1 (length [exStanding ''a'' (1/5), exStanding ''b'' (9/10)]) = C"
    using bands [THEN spec, of 1] by simp
  ultimately show ?thesis by blast
qed

text \<open>
  C9, at a failing input: \<open>movesWithScores.sort(...)\<close> sorts the caller's array in place.
  After \<open>groupMovesByTier\<close> on the array \<open>[a (0.2), b (0.9)]\<close> the caller's array is
  \<open>[b, a]\<close>: the argument has been reordered.
\<close>

theorem groupMovesByTier_sorts_argument:
  "fst (groupMovesByTier [exStanding ''a'' (1/5), exStanding ''b'' (9/10)])
     = [exStanding ''b'' (9/10), exStanding ''a'' (1/5)]
   \<and> [exStanding ''b'' (9/10), exStanding ''a'' (1/5)]
       \<noteq> [exStanding ''a'' (1/5), exStanding ''b'' (9/10)]"
  by (simp add: groupMovesByTier_def Let_def sort_ex_two) (simp add: exStanding_def)

subsection \<open>Tied scores\<close>

text \<open>
  C4, as stated, fails for \<open>groupMovesByTier\<close>: two standings with the same score 0.5 are
  put into S (position 0 of 2) and C (position 1 of 2).
\<close>

theorem tied_scores_split_counterexample:
  "btlScore (exStanding ''a'' (1/2)) = btlScore (exStanding ''b'' (1/2))
   \<and> snd (groupMovesByTier [exStanding ''a'' (1/2), exStanding ''b'' (1/2)]) S
        = [exStanding ''a'' (1/2)]
   \<and> snd (groupMovesByTier [exStanding ''a'' (1/2), exStanding ''b'' (1/2)]) C
        = [exStanding ''b'' (1/2)]"
  by (simp add: tiers_bucket sort_ex_tied upt_2 tierOfIndex_two exStanding_score)

lemma uniq_fold:
  "distinct acc \<Longrightarrow>
   distinct (fold (\<lambda>x acc. if x \<in> set acc then acc else acc @ [x]) xs acc)
   \<and> set (fold (\<lambda>x acc. if x \<in> set acc then acc else acc @ [x]) xs acc) = set acc \<union> set xs"
  by (induction xs arbitrary: acc) auto

lemma distinct_uniq: "distinct (uniq xs)" and set_uniq: "set (uniq xs) = set xs"
  using uniq_fold [of "[]" xs] by (simp_all add: uniq_def)

lemma distinct_sortBy: "distinct (sortBy cmp xs) = distinct xs"
  using mset_sortBy [of cmp xs] by (rule mset_eq_imp_distinct_iff)

lemma fold_addToGroup:
  "fold addToGroup ys g u =
     (case g u of
        None \<Rightarrow> (if filter (\<lambda>m. btlScore m = u) ys = [] then None
                  else Some (filter (\<lambda>m. btlScore m = u) ys))
      | Some l \<Rightarrow> Some (l @ filter (\<lambda>m. btlScore m = u) ys))"
proof (induction ys arbitrary: g)
  case Nil
  then show ?case by (simp split: option.splits)
next
  case (Cons y ys)
  show ?case
    by (simp add: Cons.IH [of "addToGroup y g"])
       (simp add: addToGroup_def Let_def split: option.splits)
qed

lemma scoreGroups_Some:
  "u \<in> btlScore ` set ys \<Longrightarrow>
   fold addToGroup ys Map.empty u = Some (filter (\<lambda>m. btlScore m = u) ys)"
  by (auto simp: fold_addToGroup filter_empty_conv)

lemma assignScore_step:
  assumes "groups u = Some ms"
  shows "assignScore groups u (Some (min k 6, tm)) =
           Some (min (Suc k) 6, tm(tierAt k := tm (tierAt k) @ ms))"
  using assms
  by (auto simp: assignScore_def tierAt_def tierNames_def Let_def min_def)

lemma fold_assignScore:
  assumes "\<forall>u \<in> set us. groups u = Some (G u)"
  shows "fold (assignScore groups) us (Some (min k 6, tm)) =
           Some (min (k + length us) 6,
                 \<lambda>t. tm t @ concat (map (\<lambda>(j, u). G u)
                                 (filter (\<lambda>(j, u). tierAt j = t) (enumerate k us))))"
  using assms
proof (induction us arbitrary: k tm)
  case Nil
  then show ?case by simp
next
  case (Cons u us)
  from Cons.prems have u: "groups u = Some (G u)" and rest: "\<forall>u \<in> set us. groups u = Some (G u)"
    by simp_all
  have "fold (assignScore groups) (u # us) (Some (min k 6, tm)) =
        fold (assignScore groups) us (Some (min (Suc k) 6, tm(tierAt k := tm (tierAt k) @ G u)))"
    using u by (simp add: assignScore_step)
  also have "\<dots> = Some (min (Suc k + length us) 6,
                 \<lambda>t. (tm(tierAt k := tm (tierAt k) @ G u)) t @ concat (map (\<lambda>(j, u). G u)
                                 (filter (\<lambda>(j, u). tierAt j = t) (enumerate (Suc k) us))))"
    by (rule Cons.IH [OF rest, of "Suc k" "tm(tierAt k := tm (tierAt k) @ G u)"])
  also have "\<dots> = Some (min (k + length (u # us)) 6,
                 \<lambda>t. tm t @ concat (map (\<lambda>(j, u). G u)
                                 (filter (\<lambda>(j, u). tierAt j = t) (enumerate k (u # us)))))"
    by (auto simp: fun_eq_iff)
  finally show ?case .
qed

lemma globalTiers_eq:
  "groupGlobalRankingsByTier lc xs =
     Some (\<lambda>t. concat (map (\<lambda>(j, u). filter (\<lambda>m. btlScore m = u) (sortBy (byScoreThenName lc) xs))
                  (filter (\<lambda>(j, u). tierAt j = t)
                     (enumerate 0 (sortBy (\<lambda>a b. b - a)
                        (uniq (map btlScore (sortBy (byScoreThenName lc) xs))))))))"
proof -
  let ?sorted = "sortBy (byScoreThenName lc) xs"
  let ?us = "sortBy (\<lambda>a b. b - a) (uniq (map btlScore ?sorted))"
  let ?G = "\<lambda>u. filter (\<lambda>m. btlScore m = u) ?sorted"
  have "\<forall>u \<in> set ?us. fold addToGroup ?sorted Map.empty u = Some (?G u)"
    by (simp add: set_sortBy set_uniq scoreGroups_Some)
  from fold_assignScore [where G = ?G and k = 0 and tm = "\<lambda>t. []", OF this]
  show ?thesis by (simp add: groupGlobalRankingsByTier_def Let_def)
qed

lemma globalTiers_mem:
  assumes "groupGlobalRankingsByTier lc xs = Some tiers"
  shows "a \<in> set (tiers t) \<longleftrightarrow>
     a \<in> set xs \<and> (\<exists>j < length (uniq (map btlScore (sortBy (byScoreThenName lc) xs))).
        tierAt j = t
        \<and> sortBy (\<lambda>a b. b - a) (uniq (map btlScore (sortBy (byScoreThenName lc) xs))) ! j = btlScore a)"
proof -
  from assms have "tiers = (\<lambda>t. concat (map (\<lambda>(j, u). filter (\<lambda>m. btlScore m = u) (sortBy (byScoreThenName lc) xs))
                  (filter (\<lambda>(j, u). tierAt j = t)
                     (enumerate 0 (sortBy (\<lambda>a b. b - a)
                        (uniq (map btlScore (sortBy (byScoreThenName lc) xs))))))))"
    by (simp add: globalTiers_eq)
  then show ?thesis
    by (auto simp: in_set_enumerate_eq set_sortBy length_sortBy)
qed

text \<open>
  C4 (amended): \<open>groupMovesByTier\<close> assigns tiers by rank position alone (see C5) and can
  split a group of tied scores; the grouping that keeps ties together is
  \<open>groupGlobalRankingsByTier\<close> of the tier list page: for every input it returns tiers in
  which every standing is in exactly one tier and any two standings with identical score
  are in the same tier.
\<close>

theorem groupGlobalRankingsByTier_keeps_ties:
  "\<exists>tiers. groupGlobalRankingsByTier localeCompare globalRankings = Some tiers
     \<and> (\<forall>a \<in> set globalRankings. \<exists>!t. a \<in> set (tiers t))
     \<and> (\<forall>a \<in> set globalRankings. \<forall>b \<in> set globalRankings.
           btlScore a = btlScore b \<longrightarrow> (\<forall>t. a \<in> set (tiers t) \<longleftrightarrow> b \<in> set (tiers t)))"
proof -
  let ?us = "sortBy (\<lambda>a b. b - a) (uniq (map btlScore (sortBy (byScoreThenName localeCompare) globalRankings)))"
  obtain tiers where tiers: "groupGlobalRankingsByTier localeCompare globalRankings = Some tiers"
    by (simp add: globalTiers_eq)
  note mem = globalTiers_mem [OF tiers]
  have len: "length ?us = length (uniq (map btlScore (sortBy (byScoreThenName localeCompare) globalRankings)))"
    by (simp add: length_sortBy)
  have dist: "distinct ?us" by (simp add: distinct_sortBy distinct_uniq)
  have one: "\<exists>!t. a \<in> set (tiers t)" if a: "a \<in> set globalRankings" for a
  proof -
    from a have "btlScore a \<in> set ?us" by (simp add: set_sortBy set_uniq)
    then obtain j where j: "j < length ?us" "?us ! j = btlScore a"
      by (auto simp: in_set_conv_nth)
    have "a \<in> set (tiers t) \<longleftrightarrow> t = tierAt j" for t
    proof
      assume "a \<in> set (tiers t)"
      then obtain j' where j': "j' < length ?us" "tierAt j' = t" "?us ! j' = btlScore a"
        unfolding mem len by blast
      from j(2) j'(3) have "?us ! j' = ?us ! j" by simp
      with j(1) j'(1) dist have "j' = j" by (simp only: nth_eq_iff_index_eq)
      with j' show "t = tierAt j" by simp
    next
      assume "t = tierAt j"
      with j a show "a \<in> set (tiers t)" unfolding mem len by blast
    qed
    then show ?thesis by (intro ex1I [of _ "tierAt j"]) simp_all
  qed
  have same: "a \<in> set (tiers t) \<longleftrightarrow> b \<in> set (tiers t)"
    if "a \<in> set globalRankings" "b \<in> set globalRankings" "btlScore a = btlScore b" for a b t
    using that by (simp add: mem)
  from tiers one same show ?thesis by blast
qed

lemma ex_sorted:
  "sortBy (byScoreThenName (\<lambda>x y. 0)) [exStanding ''a'' (1/2), exStanding ''b'' (1/2)]
    = [exStanding ''a'' (1/2), exStanding ''b'' (1/2)]"
  by (simp add: sortBy_def byScoreThenName_def exStanding_score)

lemma ex_groups:
  "fold addToGroup [exStanding ''a'' (1/2), exStanding ''b'' (1/2)] Map.empty
    = [1/2 \<mapsto> [exStanding ''a'' (1/2), exStanding ''b'' (1/2)]]"
  by (simp add: addToGroup_def exStanding_score Let_def)

lemma ex_unique:
  "sortBy (\<lambda>a b. b - a) (uniq (map btlScore [exStanding ''a'' (1/2), exStanding ''b'' (1/2)]))
    = [1/2]"
  by (simp add: sortBy_def uniq_def exStanding_score)

lemma ex_global:
  "groupGlobalRankingsByTier (\<lambda>x y. 0) [exStanding ''a'' (1/2), exStanding ''b'' (1/2)]
     = Some ((\<lambda>t. [])(S := [exStanding ''a'' (1/2), exStanding ''b'' (1/2)]))"
  unfolding groupGlobalRankingsByTier_def Let_def ex_sorted ex_groups ex_unique
  by (simp add: assignScore_def tierNames_def)

lemma ex_global_S:
  assumes t: "groupGlobalRankingsByTier (\<lambda>x y. 0)
         [exStanding ''a'' (1/2), exStanding ''b'' (1/2)] = Some tiers"
  shows "exStanding ''a'' (1/2) \<in> set (tiers S)"
proof -
  from t have "tiers = (\<lambda>t. [])(S := [exStanding ''a'' (1/2), exStanding ''b'' (1/2)])"
    by (simp only: ex_global option.inject)
  then show ?thesis by simp
qed

theorem groupGlobalRankingsByTier_keeps_ties_witness:
  "\<exists>tiers. groupGlobalRankingsByTier (\<lambda>x y. 0) [exStanding ''a'' (1/2), exStanding ''b'' (1/2)]
        = Some tiers
     \<and> exStanding ''a'' (1/2) \<in> set (tiers S) \<and> exStanding ''b'' (1/2) \<in> set (tiers S)"
proof -
  from groupGlobalRankingsByTier_keeps_ties
         [of "\<lambda>x y. 0" "[exStanding ''a'' (1/2), exStanding ''b'' (1/2)]"]
  obtain tiers where t: "groupGlobalRankingsByTier (\<lambda>x y. 0)
         [exStanding ''a'' (1/2), exStanding ''b'' (1/2)] = Some tiers"
    and same: "\<forall>a \<in> set [exStanding ''a'' (1/2), exStanding ''b'' (1/2)].
           \<forall>b \<in> set [exStanding ''a'' (1/2), exStanding ''b'' (1/2)].
           btlScore a = btlScore b \<longrightarrow> (\<forall>t. a \<in> set (tiers t) \<longleftrightarrow> b \<in> set (tiers t))"
    by (elim exE conjE)
  from t have a: "exStanding ''a'' (1/2) \<in> set (tiers S)" by (rule ex_global_S)
  have m: "exStanding ''a'' (1/2) \<in> set [exStanding ''a'' (1/2), exStanding ''b'' (1/2)]"
    "exStanding ''b'' (1/2) \<in> set [exStanding ''a'' (1/2), exStanding ''b'' (1/2)]"
    by simp_all
  have e: "btlScore (exStanding ''a'' (1/2)) = btlScore (exStanding ''b'' (1/2))"
    by (simp add: exStanding_score)
  from same [THEN bspec, OF m(1), THEN bspec, OF m(2), THEN mp, OF e, THEN spec, of S] a
  have b: "exStanding ''b'' (1/2) \<in> set (tiers S)" by (rule iffD1)
  from t a b show ?thesis by (intro exI [of _ tiers] conjI)
qed

end
